theory Spec2Isabelle
  imports Main "HOL-Library.AList"
begin

section \<open>Values, errors and library functions\<close>

text \<open>
  UUIDs are modelled as natural numbers and timestamps as integers.  Python values that
  travel in dictionaries (push payloads, activity-log metadata) are values of \<open>pyval\<close>.
\<close>

type_synonym uuid = nat
type_synonym websocket = nat

datatype pyval =
    PNone
  | PStr string
  | PBool bool
  | PUuid uuid
  | PTime int
  | PList "pyval list"
  | PDict "(string \<times> pyval) list"

text \<open>
  The exceptions of \<open>app/core/exceptions.py\<close> that the services raise, together with the
  exceptions of the collaborators: a storage failure raised by \<open>db.flush()\<close>, a failed
  channel operation, and \<open>JWTError\<close> of the token library.
\<close>

datatype error =
    NotFound string "string option"
  | Forbidden string
  | Conflict string
  | DbFailure
  | ChannelError
  | JWTError

text \<open>
  Functions of libraries outside the repository are parameters of the model:
  \<open>json.dumps\<close>, \<open>repr\<close> of a string, \<open>str\<close> of a UUID, \<open>datetime.isoformat\<close>,
  \<open>jose.jwt.decode\<close> (with the configured key and algorithm) and SQL's \<open>ILIKE\<close>.
\<close>

record pylib =
  json_dumps :: "pyval \<Rightarrow> string"
  py_repr :: "string \<Rightarrow> string"
  str_uuid :: "uuid \<Rightarrow> string"
  isoformat :: "int \<Rightarrow> string"
  jwt_decode :: "string \<Rightarrow> error + (string \<times> pyval) list"
  sql_ilike :: "string \<Rightarrow> string \<Rightarrow> bool"

section \<open>Persistent rows\<close>

record user =
  user_id :: uuid
  username :: string
  user_role :: string

record team =
  team_id :: uuid
  team_name :: string
  team_owner_id :: uuid

record team_member =
  tm_team_id :: uuid
  tm_user_id :: uuid
  tm_role :: string

record task =
  task_id :: uuid
  title :: string
  description :: "string option"
  status :: string
  priority :: string
  due_date :: "int option"
  owner_id :: uuid
  assigned_to_id :: "uuid option"
  task_team_id :: "uuid option"
  tags :: "string list option"
  is_archived :: bool
  created_at :: int

record notification =
  n_id :: uuid
  n_user_id :: uuid
  n_message :: string
  n_type :: string
  n_reference_id :: "uuid option"
  n_is_read :: bool
  n_created_at :: int

record activity_log =
  al_id :: uuid
  al_user_id :: uuid
  al_action :: string
  al_entity_type :: string
  al_entity_id :: uuid
  al_meta :: "pyval option"
  al_created_at :: int

section \<open>System state\<close>

text \<open>
  One record holds the state the services read and write: the tables of the database
  session, the process-local connection registry \<open>ConnectionManager._connections\<close>
  (a Python dict, kept as an association list in insertion order), and the environment
  of the push channels.

  \<^item> \<open>flush_faults\<close> schedules the outcome of the coming calls of \<open>db.flush()\<close>: each call
    consumes the head, \<open>True\<close> makes it raise; with an empty schedule every flush succeeds.
  \<^item> \<open>broken\<close> lists the channels on which \<open>accept\<close> and \<open>send_text\<close> raise.
  \<^item> \<open>send_attempts\<close> records every call of \<open>send_text\<close>/\<open>send_json\<close>, \<open>closes\<close> every call of
    \<open>websocket.close\<close>, \<open>error_log\<close> every \<open>logger.error\<close> of the activity service.
\<close>

record sys =
  users :: "user list"
  teams :: "team list"
  team_members :: "team_member list"
  tasks :: "task list"
  notifications :: "notification list"
  activity_logs :: "activity_log list"
  flush_faults :: "bool list"
  next_uuid :: uuid
  now :: int
  connections :: "(string \<times> websocket list) list"
  broken :: "websocket list"
  accepted :: "websocket list"
  send_attempts :: "(websocket \<times> string) list"
  closes :: "(websocket \<times> nat \<times> string) list"
  error_log :: "string list"

section \<open>Connection registry (\<open>app/services/websocket_service.py\<close>)\<close>

definition ws_accept :: "sys \<Rightarrow> websocket \<Rightarrow> (error + unit) \<times> sys" where
  "ws_accept s ws =
     (if ws \<in> set (broken s) then (Inl ChannelError, s)
      else (Inr (), s\<lparr>accepted := accepted s @ [ws]\<rparr>))"

definition send_text :: "sys \<Rightarrow> websocket \<Rightarrow> string \<Rightarrow> (error + unit) \<times> sys" where
  "send_text s ws message =
     (let s' = s\<lparr>send_attempts := send_attempts s @ [(ws, message)]\<rparr>
      in if ws \<in> set (broken s) then (Inl ChannelError, s') else (Inr (), s'))"

definition ws_close :: "sys \<Rightarrow> websocket \<Rightarrow> nat \<Rightarrow> string \<Rightarrow> sys" where
  "ws_close s ws code reason = s\<lparr>closes := closes s @ [(ws, code, reason)]\<rparr>"

text \<open>\<open>self._connections.get(user_id, [])\<close>\<close>

definition handles_of :: "sys \<Rightarrow> string \<Rightarrow> websocket list" where
  "handles_of s uid = (case map_of (connections s) uid of None \<Rightarrow> [] | Some l \<Rightarrow> l)"

text \<open>
  \<open>connect\<close>: accept the channel, create the user's entry if it is missing, append the
  handle.  An exception of \<open>accept\<close> leaves the registry as it was.
\<close>

definition connect :: "sys \<Rightarrow> websocket \<Rightarrow> string \<Rightarrow> (error + unit) \<times> sys" where
  "connect s ws uid =
     (case ws_accept s ws of
        (Inl e, s1) \<Rightarrow> (Inl e, s1)
      | (Inr _, s1) \<Rightarrow>
          (let c1 = (if map_of (connections s1) uid = None
                     then AList.update uid [] (connections s1) else connections s1);
               c2 = (case map_of c1 uid of
                       None \<Rightarrow> c1
                     | Some l \<Rightarrow> AList.update uid (l @ [ws]) c1)
           in (Inr (), s1\<lparr>connections := c2\<rparr>)))"

text \<open>
  \<open>disconnect\<close>: \<open>list.remove\<close> deletes the first occurrence and its \<open>ValueError\<close> is
  swallowed (\<open>remove1\<close>); an entry that became empty is deleted.
\<close>

definition disconnect :: "sys \<Rightarrow> websocket \<Rightarrow> string \<Rightarrow> sys" where
  "disconnect s ws uid =
     (case map_of (connections s) uid of
        None \<Rightarrow> s
      | Some l \<Rightarrow>
          (let l' = remove1 ws l;
               c1 = AList.update uid l' (connections s)
           in if l' = [] then s\<lparr>connections := AList.delete uid c1\<rparr>
              else s\<lparr>connections := c1\<rparr>))"

definition is_connected :: "sys \<Rightarrow> string \<Rightarrow> bool" where
  "is_connected s uid =
     (case map_of (connections s) uid of None \<Rightarrow> False | Some l \<Rightarrow> l \<noteq> [])"

text \<open>The first loop of \<open>send_personal_message\<close>: one send per handle, failures collected.\<close>

fun send_loop :: "sys \<Rightarrow> websocket list \<Rightarrow> string \<Rightarrow> websocket list \<Rightarrow> websocket list \<times> sys" where
  "send_loop s [] message dead = (dead, s)"
| "send_loop s (ws # rest) message dead =
     (case send_text s ws message of
        (Inl _, s1) \<Rightarrow> send_loop s1 rest message (dead @ [ws])
      | (Inr _, s1) \<Rightarrow> send_loop s1 rest message dead)"

definition send_personal_message :: "pylib \<Rightarrow> sys \<Rightarrow> string \<Rightarrow> pyval \<Rightarrow> (error + unit) \<times> sys" where
  "send_personal_message L s uid data =
     (let conns = handles_of s uid
      in if conns = [] then (Inr (), s)
         else (let message = json_dumps L data;
                   (dead, s1) = send_loop s conns message []
               in (Inr (), fold (\<lambda>ws st. disconnect st ws uid) dead s1)))"

text \<open>\<open>broadcast\<close>: the same over a snapshot of all entries.\<close>

fun broadcast_inner ::
  "sys \<Rightarrow> string \<Rightarrow> websocket list \<Rightarrow> string \<Rightarrow> (websocket \<times> string) list
     \<Rightarrow> (websocket \<times> string) list \<times> sys" where
  "broadcast_inner s uid [] message all_dead = (all_dead, s)"
| "broadcast_inner s uid (ws # rest) message all_dead =
     (case send_text s ws message of
        (Inl _, s1) \<Rightarrow> broadcast_inner s1 uid rest message (all_dead @ [(ws, uid)])
      | (Inr _, s1) \<Rightarrow> broadcast_inner s1 uid rest message all_dead)"

fun broadcast_outer ::
  "sys \<Rightarrow> (string \<times> websocket list) list \<Rightarrow> string \<Rightarrow> (websocket \<times> string) list
     \<Rightarrow> (websocket \<times> string) list \<times> sys" where
  "broadcast_outer s [] message all_dead = (all_dead, s)"
| "broadcast_outer s ((uid, conns) # items) message all_dead =
     (case broadcast_inner s uid conns message all_dead of
        (all_dead1, s1) \<Rightarrow> broadcast_outer s1 items message all_dead1)"

definition broadcast :: "pylib \<Rightarrow> sys \<Rightarrow> pyval \<Rightarrow> (error + unit) \<times> sys" where
  "broadcast L s data =
     (let message = json_dumps L data;
          (all_dead, s1) = broadcast_outer s (connections s) message []
      in (Inr (), fold (\<lambda>(ws, uid) st. disconnect st ws uid) all_dead s1))"

text \<open>The registry invariant: no user identity is mapped to an empty handle list.\<close>

definition no_empty_entries :: "sys \<Rightarrow> bool" where
  "no_empty_entries s = list_all (\<lambda>(uid, l). l \<noteq> []) (connections s)"

section \<open>Push-channel endpoint (\<open>app/api/v1/websocket.py\<close>)\<close>

text \<open>
  \<open>decode_access_token\<close> of \<open>app/core/security.py\<close>: the library decodes and validates the
  token; a payload whose \<open>type\<close> is not \<open>access\<close> raises \<open>JWTError\<close>.
\<close>

definition decode_access_token :: "pylib \<Rightarrow> string \<Rightarrow> error + (string \<times> pyval) list" where
  "decode_access_token L token =
     (case jwt_decode L token of
        Inl e \<Rightarrow> Inl e
      | Inr payload \<Rightarrow>
          (if map_of payload ''type'' \<noteq> Some (PStr ''access'') then Inl JWTError
           else Inr payload))"

text \<open>
  \<open>websocket_endpoint\<close> up to the registration of the channel.  The argument \<open>token_param\<close>
  is \<open>websocket.query_params.get("token")\<close>.  The outcome says how this part ended: the
  channel was closed with a code and a reason, an exception left the function, or the
  channel was registered (the acknowledgement, the heartbeat and the receive loop, which
  follow in the source, are outside the model).
\<close>

datatype endpoint_outcome = Closed nat string | Raised error | Registered

definition websocket_endpoint ::
  "pylib \<Rightarrow> sys \<Rightarrow> websocket \<Rightarrow> string \<Rightarrow> string option \<Rightarrow> endpoint_outcome \<times> sys" where
  "websocket_endpoint L s ws uid token_param =
     (case token_param of
        None \<Rightarrow> (Closed 4001 ''Missing authentication token'',
                 ws_close s ws 4001 ''Missing authentication token'')
      | Some token \<Rightarrow>
          (if token = [] then
             (Closed 4001 ''Missing authentication token'',
              ws_close s ws 4001 ''Missing authentication token'')
           else
             (case decode_access_token L token of
                Inl JWTError \<Rightarrow> (Closed 4001 ''Invalid or expired token'',
                                ws_close s ws 4001 ''Invalid or expired token'')
              | Inl e \<Rightarrow> (Raised e, s)
              | Inr payload \<Rightarrow>
                  (if map_of payload ''sub'' \<noteq> Some (PStr uid) then
                     (Closed 4003 ''Token user_id mismatch'',
                      ws_close s ws 4003 ''Token user_id mismatch'')
                   else
                     (case connect s ws uid of
                        (Inl e, s1) \<Rightarrow> (Raised e, s1)
                      | (Inr _, s1) \<Rightarrow> (Registered, s1))))))"

fun close_code :: "endpoint_outcome \<Rightarrow> nat option" where
  "close_code (Closed code reason) = Some code"
| "close_code (Raised e) = None"
| "close_code Registered = None"

section \<open>Storage writes\<close>

text \<open>
  \<open>db.flush()\<close>: raises when the schedule says so.  A write whose flush raised leaves the
  table as it was.
\<close>

definition flush :: "sys \<Rightarrow> (error + unit) \<times> sys" where
  "flush s =
     (case flush_faults s of
        [] \<Rightarrow> (Inr (), s)
      | f # fs \<Rightarrow> (if f then Inl DbFailure else Inr (), s\<lparr>flush_faults := fs\<rparr>))"

section \<open>Notifications (\<open>app/crud/notification.py\<close>, \<open>app/services/notification_service.py\<close>)\<close>

definition create_notification ::
  "sys \<Rightarrow> uuid \<Rightarrow> string \<Rightarrow> string \<Rightarrow> uuid option \<Rightarrow> (error + notification) \<times> sys" where
  "create_notification s uid message ntype reference_id =
     (let notification =
            \<lparr>n_id = next_uuid s, n_user_id = uid, n_message = message, n_type = ntype,
             n_reference_id = reference_id, n_is_read = False, n_created_at = now s\<rparr>
      in case flush s of
           (Inl e, s1) \<Rightarrow> (Inl e, s1)
         | (Inr _, s1) \<Rightarrow>
             (Inr notification,
              s1\<lparr>notifications := notifications s1 @ [notification],
                 next_uuid := Suc (next_uuid s1)\<rparr>))"

text \<open>The push payload that \<open>notify_user\<close> builds for a connected user.\<close>

definition push_payload ::
  "pylib \<Rightarrow> notification \<Rightarrow> string \<Rightarrow> string \<Rightarrow> uuid option \<Rightarrow> pyval" where
  "push_payload L notification message ntype reference_id =
     PDict [(''type'', PStr ''notification''),
            (''data'', PDict
               [(''id'', PStr (str_uuid L (n_id notification))),
                (''message'', PStr message),
                (''notification_type'', PStr ntype),
                (''reference_id'',
                   (case reference_id of None \<Rightarrow> PNone | Some r \<Rightarrow> PStr (str_uuid L r))),
                (''is_read'', PBool False),
                (''created_at'', PStr (isoformat L (n_created_at notification)))])]"

definition notify_user ::
  "pylib \<Rightarrow> sys \<Rightarrow> uuid \<Rightarrow> string \<Rightarrow> string \<Rightarrow> uuid option \<Rightarrow> (error + unit) \<times> sys" where
  "notify_user L s uid message ntype reference_id =
     (case create_notification s uid message ntype reference_id of
        (Inl e, s1) \<Rightarrow> (Inl e, s1)
      | (Inr notification, s1) \<Rightarrow>
          (if is_connected s1 (str_uuid L uid) then
             send_personal_message L s1 (str_uuid L uid)
               (push_payload L notification message ntype reference_id)
           else (Inr (), s1)))"

definition notify_task_assigned ::
  "pylib \<Rightarrow> sys \<Rightarrow> uuid \<Rightarrow> uuid \<Rightarrow> string \<Rightarrow> string \<Rightarrow> (error + unit) \<times> sys" where
  "notify_task_assigned L s assignee_id tid task_title assigner_name =
     notify_user L s assignee_id
       (assigner_name @ '' assigned you to task: '' @ py_repr L task_title)
       ''task_assigned'' (Some tid)"

definition notify_task_updated ::
  "pylib \<Rightarrow> sys \<Rightarrow> uuid \<Rightarrow> uuid \<Rightarrow> string \<Rightarrow> string \<Rightarrow> (error + unit) \<times> sys" where
  "notify_task_updated L s uid tid task_title updater_name =
     notify_user L s uid
       (updater_name @ '' updated task: '' @ py_repr L task_title)
       ''task_updated'' (Some tid)"

definition notify_team_invite ::
  "pylib \<Rightarrow> sys \<Rightarrow> uuid \<Rightarrow> uuid \<Rightarrow> string \<Rightarrow> string \<Rightarrow> (error + unit) \<times> sys" where
  "notify_team_invite L s uid tid tname inviter_name =
     notify_user L s uid
       (inviter_name @ '' added you to team: '' @ py_repr L tname)
       ''team_invite'' (Some tid)"

definition notify_team_removed ::
  "pylib \<Rightarrow> sys \<Rightarrow> uuid \<Rightarrow> uuid \<Rightarrow> string \<Rightarrow> (error + unit) \<times> sys" where
  "notify_team_removed L s uid tid tname =
     notify_user L s uid
       (''You have been removed from team: '' @ py_repr L tname)
       ''team_removed'' (Some tid)"

section \<open>Activity log (\<open>app/services/activity_service.py\<close>)\<close>

text \<open>
  \<open>ActivityService.log\<close>: the handler of the \<open>try\<close> block writes to the logger and then
  executes \<open>raise\<close>, so the exception of the flush reaches the caller.
\<close>

definition activity_service_log ::
  "sys \<Rightarrow> uuid \<Rightarrow> string \<Rightarrow> string \<Rightarrow> uuid \<Rightarrow> pyval option \<Rightarrow> (error + activity_log) \<times> sys" where
  "activity_service_log s uid action entity_type entity_id meta =
     (let entry =
            \<lparr>al_id = next_uuid s, al_user_id = uid, al_action = action,
             al_entity_type = entity_type, al_entity_id = entity_id, al_meta = meta,
             al_created_at = now s\<rparr>
      in case flush s of
           (Inl exc, s1) \<Rightarrow>
             (Inl exc, s1\<lparr>error_log := error_log s1 @ [''Failed to write activity log'']\<rparr>)
         | (Inr _, s1) \<Rightarrow>
             (Inr entry,
              s1\<lparr>activity_logs := activity_logs s1 @ [entry],
                 next_uuid := Suc (next_uuid s1)\<rparr>))"

section \<open>Teams (\<open>app/crud/team.py\<close>, \<open>app/services/team_service.py\<close>)\<close>

text \<open>
  Lookups by primary key (\<open>scalar_one_or_none\<close>): \<open>id\<close> is the key of \<open>teams\<close> and \<open>users\<close>,
  and \<open>(team_id, user_id)\<close> is the key of \<open>team_members\<close>, so at most one row matches.
\<close>

definition crud_team_get :: "sys \<Rightarrow> uuid \<Rightarrow> team option" where
  "crud_team_get s tid = find (\<lambda>t. team_id t = tid) (teams s)"

definition crud_user_get :: "sys \<Rightarrow> uuid \<Rightarrow> user option" where
  "crud_user_get s uid = find (\<lambda>u. user_id u = uid) (users s)"

definition get_member :: "sys \<Rightarrow> uuid \<Rightarrow> uuid \<Rightarrow> team_member option" where
  "get_member s tid uid =
     find (\<lambda>m. tm_team_id m = tid \<and> tm_user_id m = uid) (team_members s)"

text \<open>
  \<open>CRUDTeam.add_member\<close> inserts a row without looking at the table; the service reaches
  it only after \<open>get_member\<close> returned \<open>None\<close>.
\<close>

definition crud_team_add_member ::
  "sys \<Rightarrow> uuid \<Rightarrow> uuid \<Rightarrow> string \<Rightarrow> (error + team_member) \<times> sys" where
  "crud_team_add_member s tid uid role =
     (let member = \<lparr>tm_team_id = tid, tm_user_id = uid, tm_role = role\<rparr>
      in case flush s of
           (Inl e, s1) \<Rightarrow> (Inl e, s1)
         | (Inr _, s1) \<Rightarrow> (Inr member, s1\<lparr>team_members := team_members s1 @ [member]\<rparr>))"

definition crud_team_remove_member ::
  "sys \<Rightarrow> uuid \<Rightarrow> uuid \<Rightarrow> (error + team_member option) \<times> sys" where
  "crud_team_remove_member s tid uid =
     (case get_member s tid uid of
        None \<Rightarrow> (Inr None, s)
      | Some member \<Rightarrow>
          (case flush s of
             (Inl e, s1) \<Rightarrow> (Inl e, s1)
           | (Inr _, s1) \<Rightarrow>
               (Inr (Some member),
                s1\<lparr>team_members :=
                     filter (\<lambda>m. \<not> (tm_team_id m = tid \<and> tm_user_id m = uid))
                       (team_members s1)\<rparr>)))"

text \<open>
  \<open>get_user_team_ids\<close>: the ids of the teams that the user owns or has a membership row
  in (\<open>teams\<close> outer-joined with \<open>team_members\<close>, \<open>DISTINCT\<close>).
\<close>

definition get_user_team_ids :: "sys \<Rightarrow> uuid \<Rightarrow> uuid list" where
  "get_user_team_ids s uid =
     remdups (map team_id
       (filter (\<lambda>t. team_owner_id t = uid \<or>
                  list_ex (\<lambda>m. tm_team_id m = team_id t \<and> tm_user_id m = uid) (team_members s))
          (teams s)))"

definition assert_manager_or_admin :: "sys \<Rightarrow> team \<Rightarrow> user \<Rightarrow> error + unit" where
  "assert_manager_or_admin s team u =
     (if user_role u = ''admin'' \<or> team_owner_id team = user_id u then Inr ()
      else (case get_member s (team_id team) (user_id u) of
              None \<Rightarrow> Inl (Forbidden ''Only team managers or admins can perform this action'')
            | Some member \<Rightarrow>
                (if tm_role member \<noteq> ''manager''
                 then Inl (Forbidden ''Only team managers or admins can perform this action'')
                 else Inr ())))"

text \<open>\<open>TeamService.add_member\<close>; \<open>member_in\<close> is given by its fields \<open>user_id\<close> and \<open>role\<close>.\<close>

definition add_member ::
  "pylib \<Rightarrow> sys \<Rightarrow> uuid \<Rightarrow> uuid \<Rightarrow> string \<Rightarrow> user \<Rightarrow> (error + team_member) \<times> sys" where
  "add_member L s tid m_user_id m_role current_user =
     (case crud_team_get s tid of
        None \<Rightarrow> (Inl (NotFound ''Team'' (Some (str_uuid L tid))), s)
      | Some team \<Rightarrow>
     (case assert_manager_or_admin s team current_user of
        Inl e \<Rightarrow> (Inl e, s)
      | Inr _ \<Rightarrow>
     (case crud_user_get s m_user_id of
        None \<Rightarrow> (Inl (NotFound ''User'' (Some (str_uuid L m_user_id))), s)
      | Some target_user \<Rightarrow>
     (case get_member s tid m_user_id of
        Some existing \<Rightarrow> (Inl (Conflict ''User is already a member of this team''), s)
      | None \<Rightarrow>
     (case crud_team_add_member s tid m_user_id m_role of
        (Inl e, s1) \<Rightarrow> (Inl e, s1)
      | (Inr member, s1) \<Rightarrow>
     (case notify_team_invite L s1 m_user_id tid (team_name team) (username current_user) of
        (Inl e, s2) \<Rightarrow> (Inl e, s2)
      | (Inr _, s2) \<Rightarrow>
     (case activity_service_log s2 (user_id current_user) ''team_member_added'' ''team'' tid
             (Some (PDict [(''user_id'', PStr (str_uuid L m_user_id)),
                           (''role'', PStr m_role)])) of
        (Inl e, s3) \<Rightarrow> (Inl e, s3)
      | (Inr _, s3) \<Rightarrow> (Inr member, s3))))))))"

text \<open>\<open>TeamService.remove_member\<close>: the owner check stands before the privilege check.\<close>

definition remove_member ::
  "pylib \<Rightarrow> sys \<Rightarrow> uuid \<Rightarrow> uuid \<Rightarrow> user \<Rightarrow> (error + unit) \<times> sys" where
  "remove_member L s tid uid current_user =
     (case crud_team_get s tid of
        None \<Rightarrow> (Inl (NotFound ''Team'' (Some (str_uuid L tid))), s)
      | Some team \<Rightarrow>
     (if team_owner_id team = uid then (Inl (Forbidden ''Cannot remove the team owner''), s)
      else
     (case assert_manager_or_admin s team current_user of
        Inl e \<Rightarrow> (Inl e, s)
      | Inr _ \<Rightarrow>
     (case crud_team_remove_member s tid uid of
        (Inl e, s1) \<Rightarrow> (Inl e, s1)
      | (Inr None, s1) \<Rightarrow> (Inl (NotFound ''TeamMember'' None), s1)
      | (Inr (Some removed), s1) \<Rightarrow>
     (case notify_team_removed L s1 uid tid (team_name team) of
        (Inl e, s2) \<Rightarrow> (Inl e, s2)
      | (Inr _, s2) \<Rightarrow>
     (case activity_service_log s2 (user_id current_user) ''team_member_removed'' ''team'' tid
             (Some (PDict [(''user_id'', PStr (str_uuid L uid))])) of
        (Inl e, s3) \<Rightarrow> (Inl e, s3)
      | (Inr _, s3) \<Rightarrow> (Inr (), s3)))))))"

text \<open>The primary key of \<open>team_members\<close>: no two rows for one (team, user) pair.\<close>

definition member_keys :: "sys \<Rightarrow> (uuid \<times> uuid) list" where
  "member_keys s = map (\<lambda>m. (tm_team_id m, tm_user_id m)) (team_members s)"

definition membership_rows :: "sys \<Rightarrow> uuid \<Rightarrow> uuid \<Rightarrow> team_member list" where
  "membership_rows s tid uid =
     filter (\<lambda>m. tm_team_id m = tid \<and> tm_user_id m = uid) (team_members s)"

section \<open>Tasks (\<open>app/schemas/task.py\<close>, \<open>app/crud/task.py\<close>, \<open>app/crud/base.py\<close>)\<close>

text \<open>
  A field of \<open>TaskUpdate\<close> is either not set by the request or set to a value, which may be
  \<open>None\<close>.  Reading an attribute that was not set gives its default \<open>None\<close>.
\<close>

datatype 'a field = Unset | Given 'a

record task_update =
  tu_title :: "string option field"
  tu_description :: "string option field"
  tu_status :: "string option field"
  tu_priority :: "string option field"
  tu_due_date :: "int option field"
  tu_assigned_to_id :: "uuid option field"
  tu_team_id :: "uuid option field"
  tu_tags :: "string list option field"

definition field_value :: "'a option field \<Rightarrow> 'a option" where
  "field_value f = (case f of Unset \<Rightarrow> None | Given v \<Rightarrow> v)"

text \<open>\<open>model_dump(exclude_unset=True)\<close>: the fields that were set, in declaration order.\<close>

definition dump_field :: "string \<Rightarrow> 'a option field \<Rightarrow> ('a \<Rightarrow> pyval) \<Rightarrow> (string \<times> pyval) list" where
  "dump_field name f conv =
     (case f of
        Unset \<Rightarrow> []
      | Given None \<Rightarrow> [(name, PNone)]
      | Given (Some v) \<Rightarrow> [(name, conv v)])"

definition model_dump :: "task_update \<Rightarrow> (string \<times> pyval) list" where
  "model_dump u =
     dump_field ''title'' (tu_title u) PStr @
     dump_field ''description'' (tu_description u) PStr @
     dump_field ''status'' (tu_status u) PStr @
     dump_field ''priority'' (tu_priority u) PStr @
     dump_field ''due_date'' (tu_due_date u) PTime @
     dump_field ''assigned_to_id'' (tu_assigned_to_id u) PUuid @
     dump_field ''team_id'' (tu_team_id u) PUuid @
     dump_field ''tags'' (tu_tags u) (\<lambda>l. PList (map PStr l))"

text \<open>
  \<open>CRUDBase.update\<close> on a task: every field that was set is assigned, then the row is
  flushed.  The columns \<open>title\<close>, \<open>status\<close> and \<open>priority\<close> are \<open>NOT NULL\<close>: a flush that would
  store \<open>None\<close> in one of them raises.
\<close>

definition set_required :: "'a option field \<Rightarrow> 'a \<Rightarrow> 'a" where
  "set_required f old = (case f of Given (Some v) \<Rightarrow> v | _ \<Rightarrow> old)"

definition set_nullable :: "'a option field \<Rightarrow> 'a option \<Rightarrow> 'a option" where
  "set_nullable f old = (case f of Unset \<Rightarrow> old | Given v \<Rightarrow> v)"

definition violates_not_null :: "task_update \<Rightarrow> bool" where
  "violates_not_null u =
     (tu_title u = Given None \<or> tu_status u = Given None \<or> tu_priority u = Given None)"

definition apply_update :: "task \<Rightarrow> task_update \<Rightarrow> task" where
  "apply_update t u =
     t\<lparr>title := set_required (tu_title u) (title t),
       description := set_nullable (tu_description u) (description t),
       status := set_required (tu_status u) (status t),
       priority := set_required (tu_priority u) (priority t),
       due_date := set_nullable (tu_due_date u) (due_date t),
       assigned_to_id := set_nullable (tu_assigned_to_id u) (assigned_to_id t),
       task_team_id := set_nullable (tu_team_id u) (task_team_id t),
       tags := set_nullable (tu_tags u) (tags t)\<rparr>"

definition store_task :: "sys \<Rightarrow> task \<Rightarrow> sys" where
  "store_task s t = s\<lparr>tasks := map (\<lambda>r. if task_id r = task_id t then t else r) (tasks s)\<rparr>"

definition crud_task_update :: "sys \<Rightarrow> task \<Rightarrow> task_update \<Rightarrow> (error + task) \<times> sys" where
  "crud_task_update s db_obj obj_in =
     (let updated = apply_update db_obj obj_in
      in case flush s of
           (Inl e, s1) \<Rightarrow> (Inl e, s1)
         | (Inr _, s1) \<Rightarrow>
             (if violates_not_null obj_in then (Inl DbFailure, s1)
              else (Inr updated, store_task s1 updated)))"

definition crud_task_archive :: "sys \<Rightarrow> task \<Rightarrow> (error + task) \<times> sys" where
  "crud_task_archive s t =
     (let archived = t\<lparr>is_archived := True\<rparr>
      in case flush s of
           (Inl e, s1) \<Rightarrow> (Inl e, s1)
         | (Inr _, s1) \<Rightarrow> (Inr archived, store_task s1 archived))"

definition get_with_relations :: "sys \<Rightarrow> uuid \<Rightarrow> task option" where
  "get_with_relations s tid = find (\<lambda>t. task_id t = tid) (tasks s)"

subsection \<open>\<open>CRUDTask.list_with_filters\<close>\<close>

record task_filter =
  f_status :: "string option"
  f_priority :: "string option"
  f_assigned_to_id :: "uuid option"
  f_team_id :: "uuid option"
  f_is_archived :: bool
  f_due_date_from :: "int option"
  f_due_date_to :: "int option"
  f_search :: "string option"
  f_page :: int
  f_size :: int

text \<open>
  A \<open>WHERE\<close> condition is a predicate on a row; a comparison with a \<open>NULL\<close> column is not
  true, so the row is not selected.  \<open>or_(*conditions)\<close> of the visibility filter:
\<close>

definition visibility_filter :: "uuid \<Rightarrow> uuid list option \<Rightarrow> task \<Rightarrow> bool" where
  "visibility_filter oid team_ids t =
     (let conditions = [\<lambda>t. owner_id t = oid, \<lambda>t. assigned_to_id t = Some oid];
          conditions1 =
            (case team_ids of
               None \<Rightarrow> conditions
             | Some ids \<Rightarrow>
                 (if ids \<noteq> [] then
                    conditions @
                      [\<lambda>t. (case task_team_id t of None \<Rightarrow> False | Some tid \<Rightarrow> tid \<in> set ids)]
                  else conditions))
      in list_ex (\<lambda>c. c t) conditions1)"

definition search_filter :: "pylib \<Rightarrow> string \<Rightarrow> task \<Rightarrow> bool" where
  "search_filter L search t =
     (let search_term = ''%'' @ search @ ''%''
      in sql_ilike L (title t) search_term \<or>
         (case description t of None \<Rightarrow> False | Some d \<Rightarrow> sql_ilike L d search_term))"

text \<open>
  The source builds the row query and the count query side by side: every block appends
  its condition to both.  The pair below holds the conditions of the two queries.
\<close>

definition optional_clause ::
  "'a option \<Rightarrow> ('a \<Rightarrow> task \<Rightarrow> bool) \<Rightarrow> (task \<Rightarrow> bool) list \<times> (task \<Rightarrow> bool) list
     \<Rightarrow> (task \<Rightarrow> bool) list \<times> (task \<Rightarrow> bool) list" where
  "optional_clause v cond qc =
     (case v of None \<Rightarrow> qc | Some x \<Rightarrow> (fst qc @ [cond x], snd qc @ [cond x]))"

definition where_clauses ::
  "pylib \<Rightarrow> task_filter \<Rightarrow> uuid option \<Rightarrow> uuid list option
     \<Rightarrow> (task \<Rightarrow> bool) list \<times> (task \<Rightarrow> bool) list" where
  "where_clauses L f owner team_ids =
     (let qc0 = ([], []);
          qc1 = optional_clause owner (\<lambda>oid. visibility_filter oid team_ids) qc0;
          qc2 = (fst qc1 @ [\<lambda>t. is_archived t = f_is_archived f],
                 snd qc1 @ [\<lambda>t. is_archived t = f_is_archived f]);
          qc3 = optional_clause (f_status f) (\<lambda>v t. status t = v) qc2;
          qc4 = optional_clause (f_priority f) (\<lambda>v t. priority t = v) qc3;
          qc5 = optional_clause (f_assigned_to_id f) (\<lambda>v t. assigned_to_id t = Some v) qc4;
          qc6 = optional_clause (f_team_id f) (\<lambda>v t. task_team_id t = Some v) qc5;
          qc7 = optional_clause (f_due_date_from f)
                  (\<lambda>v t. (case due_date t of None \<Rightarrow> False | Some d \<Rightarrow> d \<ge> v)) qc6;
          qc8 = optional_clause (f_due_date_to f)
                  (\<lambda>v t. (case due_date t of None \<Rightarrow> False | Some d \<Rightarrow> d \<le> v)) qc7;
          qc9 = optional_clause
                  (case f_search f of None \<Rightarrow> None | Some x \<Rightarrow> if x = [] then None else Some x)
                  (search_filter L) qc8
      in qc9)"

text \<open>
  The count runs over the count query; the rows are ordered by \<open>created_at\<close>, newest
  first, and cut to the page (\<open>page \<ge> 1\<close> and \<open>1 \<le> size \<le> 100\<close> are validated by the schema).
\<close>

definition list_with_filters ::
  "pylib \<Rightarrow> sys \<Rightarrow> task_filter \<Rightarrow> uuid option \<Rightarrow> uuid list option \<Rightarrow> task list \<times> nat" where
  "list_with_filters L s f owner team_ids =
     (let (query, count_query) = where_clauses L f owner team_ids;
          total = length (filter (\<lambda>t. list_all (\<lambda>c. c t) count_query) (tasks s));
          skip = (f_page f - 1) * f_size f;
          ordered = sort_key (\<lambda>t. - created_at t)
                      (filter (\<lambda>t. list_all (\<lambda>c. c t) query) (tasks s))
      in (take (nat (f_size f)) (drop (nat skip) ordered), total))"

section \<open>Task service (\<open>app/services/task_service.py\<close>)\<close>

definition assert_can_view :: "sys \<Rightarrow> task \<Rightarrow> user \<Rightarrow> error + unit" where
  "assert_can_view s t u =
     (if user_role u = ''admin'' then Inr ()
      else if owner_id t = user_id u \<or> assigned_to_id t = Some (user_id u) then Inr ()
      else (case task_team_id t of
              None \<Rightarrow> Inl (Forbidden ''You do not have access to this task'')
            | Some tid \<Rightarrow>
                (case get_member s tid (user_id u) of
                   Some member \<Rightarrow> Inr ()
                 | None \<Rightarrow> Inl (Forbidden ''You do not have access to this task''))))"

definition assert_can_modify :: "sys \<Rightarrow> task \<Rightarrow> user \<Rightarrow> error + unit" where
  "assert_can_modify s t u =
     (if user_role u = ''admin'' then Inr ()
      else if owner_id t = user_id u then Inr ()
      else (case task_team_id t of
              None \<Rightarrow>
                Inl (Forbidden ''Only the task owner, team manager, or admin can modify this task'')
            | Some tid \<Rightarrow>
                (case get_member s tid (user_id u) of
                   None \<Rightarrow>
                     Inl (Forbidden
                       ''Only the task owner, team manager, or admin can modify this task'')
                 | Some member \<Rightarrow>
                     (if tm_role member = ''manager'' then Inr ()
                      else Inl (Forbidden
                        ''Only the task owner, team manager, or admin can modify this task'')))))"

definition get_task :: "pylib \<Rightarrow> sys \<Rightarrow> uuid \<Rightarrow> user \<Rightarrow> (error + task) \<times> sys" where
  "get_task L s tid current_user =
     (case get_with_relations s tid of
        None \<Rightarrow> (Inl (NotFound ''Task'' (Some (str_uuid L tid))), s)
      | Some t \<Rightarrow>
          (case assert_can_view s t current_user of
             Inl e \<Rightarrow> (Inl e, s)
           | Inr _ \<Rightarrow> (Inr t, s)))"

text \<open>
  \<open>update_task\<close>.  After \<open>crud_task.update\<close> the object \<open>task\<close> of the source is the updated
  row, so the title and the owner used for the notifications are read from \<open>updated\<close>.
\<close>

definition update_task ::
  "pylib \<Rightarrow> sys \<Rightarrow> uuid \<Rightarrow> task_update \<Rightarrow> user \<Rightarrow> (error + task) \<times> sys" where
  "update_task L s tid task_in current_user =
     (case get_with_relations s tid of
        None \<Rightarrow> (Inl (NotFound ''Task'' (Some (str_uuid L tid))), s)
      | Some t \<Rightarrow>
     (case assert_can_modify s t current_user of
        Inl e \<Rightarrow> (Inl e, s)
      | Inr _ \<Rightarrow>
     (let old_assignee = assigned_to_id t
      in
     (case crud_task_update s t task_in of
        (Inl e, s1) \<Rightarrow> (Inl e, s1)
      | (Inr updated, s1) \<Rightarrow>
     (case activity_service_log s1 (user_id current_user) ''task_updated'' ''task''
             (task_id updated) (Some (PDict (model_dump task_in))) of
        (Inl e, s2) \<Rightarrow> (Inl e, s2)
      | (Inr _, s2) \<Rightarrow>
     (let new_assignee = field_value (tu_assigned_to_id task_in)
      in
     (case (case new_assignee of
              None \<Rightarrow> (Inr (), s2)
            | Some a \<Rightarrow>
                (if new_assignee \<noteq> old_assignee \<and> a \<noteq> user_id current_user then
                   notify_task_assigned L s2 a (task_id updated) (title updated)
                     (username current_user)
                 else (Inr (), s2))) of
        (Inl e, s3) \<Rightarrow> (Inl e, s3)
      | (Inr _, s3) \<Rightarrow>
     (case (if owner_id updated \<noteq> user_id current_user then
              notify_task_updated L s3 (owner_id updated) (task_id updated) (title updated)
                (username current_user)
            else (Inr (), s3)) of
        (Inl e, s4) \<Rightarrow> (Inl e, s4)
      | (Inr _, s4) \<Rightarrow> (Inr updated, s4)))))))))"

definition delete_task :: "pylib \<Rightarrow> sys \<Rightarrow> uuid \<Rightarrow> user \<Rightarrow> (error + task) \<times> sys" where
  "delete_task L s tid current_user =
     (case get_with_relations s tid of
        None \<Rightarrow> (Inl (NotFound ''Task'' (Some (str_uuid L tid))), s)
      | Some t \<Rightarrow>
     (case assert_can_modify s t current_user of
        Inl e \<Rightarrow> (Inl e, s)
      | Inr _ \<Rightarrow>
     (case crud_task_archive s t of
        (Inl e, s1) \<Rightarrow> (Inl e, s1)
      | (Inr archived, s1) \<Rightarrow>
     (case activity_service_log s1 (user_id current_user) ''task_archived'' ''task''
             (task_id archived) None of
        (Inl e, s2) \<Rightarrow> (Inl e, s2)
      | (Inr _, s2) \<Rightarrow> (Inr archived, s2)))))"

text \<open>\<open>assign_task\<close> updates with the dictionary \<open>{"assigned_to_id": assignee_id}\<close>.\<close>

definition assign_task ::
  "pylib \<Rightarrow> sys \<Rightarrow> uuid \<Rightarrow> uuid \<Rightarrow> user \<Rightarrow> (error + task) \<times> sys" where
  "assign_task L s tid assignee_id current_user =
     (case get_with_relations s tid of
        None \<Rightarrow> (Inl (NotFound ''Task'' (Some (str_uuid L tid))), s)
      | Some t \<Rightarrow>
     (case assert_can_modify s t current_user of
        Inl e \<Rightarrow> (Inl e, s)
      | Inr _ \<Rightarrow>
     (case crud_task_update s t
             \<lparr>tu_title = Unset, tu_description = Unset, tu_status = Unset, tu_priority = Unset,
              tu_due_date = Unset, tu_assigned_to_id = Given (Some assignee_id),
              tu_team_id = Unset, tu_tags = Unset\<rparr> of
        (Inl e, s1) \<Rightarrow> (Inl e, s1)
      | (Inr updated, s1) \<Rightarrow>
     (case (if assignee_id \<noteq> user_id current_user then
              notify_task_assigned L s1 assignee_id (task_id updated) (title updated)
                (username current_user)
            else (Inr (), s1)) of
        (Inl e, s2) \<Rightarrow> (Inl e, s2)
      | (Inr _, s2) \<Rightarrow>
     (case activity_service_log s2 (user_id current_user) ''task_assigned'' ''task''
             (task_id updated) (Some (PDict [(''assigned_to_id'', PStr (str_uuid L assignee_id))])) of
        (Inl e, s3) \<Rightarrow> (Inl e, s3)
      | (Inr _, s3) \<Rightarrow> (Inr updated, s3))))))"

definition list_tasks :: "pylib \<Rightarrow> sys \<Rightarrow> task_filter \<Rightarrow> user \<Rightarrow> task list \<times> nat" where
  "list_tasks L s filters current_user =
     (if user_role current_user = ''admin'' then list_with_filters L s filters None None
      else (let team_ids = get_user_team_ids s (user_id current_user)
            in list_with_filters L s filters (Some (user_id current_user)) (Some team_ids)))"

section \<open>Predicates of the specification\<close>

text \<open>
  Membership as the specification words it: a row of the membership table for the pair,
  with any role or with a given role.
\<close>

definition holds_membership :: "sys \<Rightarrow> uuid \<Rightarrow> uuid \<Rightarrow> bool" where
  "holds_membership s tid uid =
     list_ex (\<lambda>m. tm_team_id m = tid \<and> tm_user_id m = uid) (team_members s)"

definition holds_role :: "sys \<Rightarrow> uuid \<Rightarrow> uuid \<Rightarrow> string \<Rightarrow> bool" where
  "holds_role s tid uid role =
     list_ex (\<lambda>m. tm_team_id m = tid \<and> tm_user_id m = uid \<and> tm_role m = role) (team_members s)"

text \<open>
  The modify rule of the specification: the actor is an admin, or owns the task, or the
  task has a team in which the actor holds a manager-role membership.
\<close>

definition may_modify :: "sys \<Rightarrow> task \<Rightarrow> user \<Rightarrow> bool" where
  "may_modify s t u =
     (user_role u = ''admin'' \<or> owner_id t = user_id u \<or>
      (case task_team_id t of None \<Rightarrow> False | Some tid \<Rightarrow> holds_role s tid (user_id u) ''manager''))"

text \<open>
  The listing scope as the specification words it (owned, assigned, or in a team the
  actor holds membership in), and the scope with team ownership counted as well.
\<close>

definition membership_scope :: "sys \<Rightarrow> uuid \<Rightarrow> task \<Rightarrow> bool" where
  "membership_scope s uid t =
     (owner_id t = uid \<or> assigned_to_id t = Some uid \<or>
      (case task_team_id t of None \<Rightarrow> False | Some tid \<Rightarrow> holds_membership s tid uid))"

definition owner_or_member_scope :: "sys \<Rightarrow> uuid \<Rightarrow> task \<Rightarrow> bool" where
  "owner_or_member_scope s uid t =
     (owner_id t = uid \<or> assigned_to_id t = Some uid \<or>
      (case task_team_id t of
         None \<Rightarrow> False
       | Some tid \<Rightarrow>
           list_ex (\<lambda>tm. team_id tm = tid \<and>
                      (team_owner_id tm = uid \<or> holds_membership s tid uid)) (teams s)))"

text \<open>The filter criteria of a listing request, apart from the scope.\<close>

definition filter_criteria :: "pylib \<Rightarrow> task_filter \<Rightarrow> task \<Rightarrow> bool" where
  "filter_criteria L f t =
     (is_archived t = f_is_archived f \<and>
      (case f_status f of None \<Rightarrow> True | Some v \<Rightarrow> status t = v) \<and>
      (case f_priority f of None \<Rightarrow> True | Some v \<Rightarrow> priority t = v) \<and>
      (case f_assigned_to_id f of None \<Rightarrow> True | Some v \<Rightarrow> assigned_to_id t = Some v) \<and>
      (case f_team_id f of None \<Rightarrow> True | Some v \<Rightarrow> task_team_id t = Some v) \<and>
      (case f_due_date_from f of
         None \<Rightarrow> True
       | Some v \<Rightarrow> (case due_date t of None \<Rightarrow> False | Some d \<Rightarrow> v \<le> d)) \<and>
      (case f_due_date_to f of
         None \<Rightarrow> True
       | Some v \<Rightarrow> (case due_date t of None \<Rightarrow> False | Some d \<Rightarrow> d \<le> v)) \<and>
      (case f_search f of
         None \<Rightarrow> True
       | Some x \<Rightarrow> x = [] \<or> search_filter L x t))"

definition page_of :: "task_filter \<Rightarrow> task list \<Rightarrow> task list" where
  "page_of f rows =
     take (nat (f_size f)) (drop (nat ((f_page f - 1) * f_size f))
       (sort_key (\<lambda>t. - created_at t) rows))"

text \<open>What a notification says to whom: category, target user and reference.\<close>

definition notice :: "notification \<Rightarrow> string \<times> uuid \<times> uuid option" where
  "notice n = (n_type n, n_user_id n, n_reference_id n)"

text \<open>
  Two states agree on the tables that the authorization rules read, and on everything a
  push leaves alone.
\<close>

definition same_tables :: "sys \<Rightarrow> sys \<Rightarrow> bool" where
  "same_tables s s' =
     (users s' = users s \<and> teams s' = teams s \<and> team_members s' = team_members s \<and>
      tasks s' = tasks s)"

definition same_db :: "sys \<Rightarrow> sys \<Rightarrow> bool" where
  "same_db s s' =
     (same_tables s s' \<and> notifications s' = notifications s \<and>
      activity_logs s' = activity_logs s \<and> flush_faults s' = flush_faults s \<and>
      next_uuid s' = next_uuid s \<and> now s' = now s \<and> error_log s' = error_log s)"

section \<open>Example data\<close>

definition example_lib :: pylib where
  "example_lib =
     \<lparr>json_dumps = (\<lambda>v. ''{}''),
      py_repr = (\<lambda>x. x),
      str_uuid = (\<lambda>n. replicate n (CHR ''i'')),
      isoformat = (\<lambda>t. ''t''),
      jwt_decode = (\<lambda>tok. if tok = ''good''
                           then Inr [(''sub'', PStr ''i''), (''type'', PStr ''access'')]
                           else Inl JWTError),
      sql_ilike = (\<lambda>v p. False)\<rparr>"

definition empty_sys :: sys where
  "empty_sys =
     \<lparr>users = [], teams = [], team_members = [], tasks = [], notifications = [],
      activity_logs = [], flush_faults = [], next_uuid = 100, now = 0, connections = [],
      broken = [], accepted = [], send_attempts = [], closes = [], error_log = []\<rparr>"

definition alice :: user where
  "alice = \<lparr>user_id = 1, username = ''alice'', user_role = ''user''\<rparr>"

definition bob :: user where
  "bob = \<lparr>user_id = 2, username = ''bob'', user_role = ''user''\<rparr>"

definition root_admin :: user where
  "root_admin = \<lparr>user_id = 3, username = ''root'', user_role = ''admin''\<rparr>"

definition team10 :: team where
  "team10 = \<lparr>team_id = 10, team_name = ''T'', team_owner_id = 1\<rparr>"

definition task20 :: task where
  "task20 =
     \<lparr>task_id = 20, title = ''X'', description = None, status = ''pending'',
      priority = ''medium'', due_date = None, owner_id = 2, assigned_to_id = None,
      task_team_id = Some 10, tags = None, is_archived = False, created_at = 5\<rparr>"

definition no_filter :: task_filter where
  "no_filter =
     \<lparr>f_status = None, f_priority = None, f_assigned_to_id = None, f_team_id = None,
      f_is_archived = False, f_due_date_from = None, f_due_date_to = None, f_search = None,
      f_page = 1, f_size = 20\<rparr>"

definition no_update :: task_update where
  "no_update =
     \<lparr>tu_title = Unset, tu_description = Unset, tu_status = Unset, tu_priority = Unset,
      tu_due_date = Unset, tu_assigned_to_id = Unset, tu_team_id = Unset, tu_tags = Unset\<rparr>"

text \<open>
  A state with three users, the team 10 owned by alice (with no membership row for her)
  and the task 20 of that team, owned by bob.
\<close>

definition example_sys :: sys where
  "example_sys = empty_sys\<lparr>users := [alice, bob, root_admin], teams := [team10], tasks := [task20]\<rparr>"

text \<open>The same state with one membership row: alice in team 10, with the given role.\<close>

definition member_sys :: "string \<Rightarrow> sys" where
  "member_sys role =
     example_sys\<lparr>team_members := [\<lparr>tm_team_id = 10, tm_user_id = 1, tm_role = role\<rparr>]\<rparr>"

section \<open>The connection registry: delivery and invariant\<close>

lemma list_all_update:
  "list_all P al \<Longrightarrow> P (k, v) \<Longrightarrow> list_all P (AList.update k v al)"
  by (induction al) auto

lemma list_all_delete:
  "list_all P al \<Longrightarrow> list_all P (AList.delete k al)"
  by (simp add: AList.delete_eq list_all_iff)

lemma send_text_frame:
  "connections (snd (send_text s ws m)) = connections s"
  "broken (snd (send_text s ws m)) = broken s"
  by (simp_all add: send_text_def Let_def)

lemma send_text_attempts:
  "send_attempts (snd (send_text s ws m)) = send_attempts s @ [(ws, m)]"
  by (simp add: send_text_def Let_def)

lemma send_text_result:
  "fst (send_text s ws m) = (if ws \<in> set (broken s) then Inl ChannelError else Inr ())"
  by (simp add: send_text_def Let_def)

lemma send_loop_connections:
  "connections (snd (send_loop s conns m dead)) = connections s"
proof (induction conns arbitrary: s dead)
  case Nil
  show ?case by simp
next
  case (Cons ws rest)
  show ?case
    using Cons.IH send_text_frame(1) [of s ws m]
    by (cases "send_text s ws m") (auto split: sum.splits)
qed

lemma send_loop_dead:
  "fst (send_loop s conns m dead) = dead @ filter (\<lambda>ws. ws \<in> set (broken s)) conns"
proof (induction conns arbitrary: s dead)
  case Nil
  show ?case by simp
next
  case (Cons ws rest)
  show ?case
    using Cons.IH send_text_frame(2) [of s ws m] send_text_result [of s ws m]
    by (cases "send_text s ws m") (auto split: sum.splits)
qed

lemma send_loop_attempts:
  "send_attempts (snd (send_loop s conns m dead)) = send_attempts s @ map (\<lambda>ws. (ws, m)) conns"
proof (induction conns arbitrary: s dead)
  case Nil
  show ?case by simp
next
  case (Cons ws rest)
  show ?case
    using Cons.IH send_text_attempts [of s ws m]
    by (cases "send_text s ws m") (auto split: sum.splits)
qed

lemma handles_of_disconnect_same:
  "handles_of (disconnect s ws uid) uid = remove1 ws (handles_of s uid)"
  by (auto simp: handles_of_def disconnect_def Let_def AList.update_conv' AList.delete_conv'
      split: option.splits)

lemma handles_of_disconnect_other:
  "v \<noteq> uid \<Longrightarrow> handles_of (disconnect s ws uid) v = handles_of s v"
  by (auto simp: handles_of_def disconnect_def Let_def AList.update_conv' AList.delete_conv'
      split: option.splits)

lemma no_empty_disconnect:
  "no_empty_entries s \<Longrightarrow> no_empty_entries (disconnect s ws uid)"
  by (auto simp: no_empty_entries_def disconnect_def Let_def list_all_update list_all_delete
      AList.delete_update_same split: option.splits)

lemma no_empty_connect:
  "no_empty_entries s \<Longrightarrow> no_empty_entries (snd (connect s ws uid))"
  by (auto simp: no_empty_entries_def connect_def ws_accept_def Let_def list_all_update
      AList.update_conv' split: option.splits)

lemma is_connected_handles: "is_connected s uid \<longleftrightarrow> handles_of s uid \<noteq> []"
  by (simp add: is_connected_def handles_of_def split: option.splits)

lemma fold_remove1_filter:
  "\<forall>y \<in> set ys. \<not> P y \<Longrightarrow>
   fold remove1 (filter P xs) (ys @ xs) = ys @ filter (\<lambda>x. \<not> P x) xs"
proof (induction xs arbitrary: ys)
  case Nil
  show ?case by simp
next
  case (Cons x xs)
  show ?case
  proof (cases "P x")
    case True
    with Cons.prems have "x \<notin> set ys" by auto
    then have "remove1 x (ys @ x # xs) = ys @ xs" by (simp add: remove1_append)
    with True Cons.IH [OF Cons.prems] show ?thesis by simp
  next
    case False
    with Cons.prems have "\<forall>y \<in> set (ys @ [x]). \<not> P y" by auto
    from Cons.IH [OF this] False show ?thesis by simp
  qed
qed


lemma handles_of_fold_disconnect:
  "handles_of (fold (\<lambda>ws st. disconnect st ws uid) dead s) uid = fold remove1 dead (handles_of s uid)"
  by (induction dead arbitrary: s) (simp_all add: handles_of_disconnect_same)

lemma handles_of_fold_disconnect_other:
  "v \<noteq> uid \<Longrightarrow> handles_of (fold (\<lambda>ws st. disconnect st ws uid) dead s) v = handles_of s v"
  by (induction dead arbitrary: s) (simp_all add: handles_of_disconnect_other)

lemma no_empty_fold_disconnect:
  "no_empty_entries s \<Longrightarrow> no_empty_entries (fold (\<lambda>ws st. disconnect st ws uid) dead s)"
  by (induction dead arbitrary: s) (simp_all add: no_empty_disconnect)

lemma no_empty_fold_disconnect_pairs:
  "no_empty_entries s \<Longrightarrow> no_empty_entries (fold (\<lambda>(ws, uid) st. disconnect st ws uid) dead s)"
  by (induction dead arbitrary: s) (auto simp: no_empty_disconnect)

lemma broadcast_inner_connections:
  "connections (snd (broadcast_inner s uid conns m dead)) = connections s"
proof (induction conns arbitrary: s dead)
  case Nil
  show ?case by simp
next
  case (Cons ws rest)
  show ?case
    using Cons.IH send_text_frame(1) [of s ws m]
    by (cases "send_text s ws m") (auto split: sum.splits)
qed

lemma broadcast_outer_connections:
  "connections (snd (broadcast_outer s items m dead)) = connections s"
proof (induction items arbitrary: s dead)
  case Nil
  show ?case by simp
next
  case (Cons it items)
  obtain uid conns where it: "it = (uid, conns)" by (cases it)
  show ?case
    using Cons.IH broadcast_inner_connections [of s uid conns m dead]
    by (cases "broadcast_inner s uid conns m dead") (simp add: it)
qed

lemma send_personal_message_handles:
  "handles_of (snd (send_personal_message L s uid data)) uid
     = filter (\<lambda>ws. ws \<notin> set (broken s)) (handles_of s uid)"
proof (cases "handles_of s uid = []")
  case True
  then show ?thesis by (simp add: send_personal_message_def)
next
  case False
  obtain dead s1 where sl: "send_loop s (handles_of s uid) (json_dumps L data) [] = (dead, s1)"
    by (cases "send_loop s (handles_of s uid) (json_dumps L data) []")
  have d: "dead = filter (\<lambda>ws. ws \<in> set (broken s)) (handles_of s uid)"
    using send_loop_dead [of s "handles_of s uid" "json_dumps L data" "[]"] sl by simp
  have c: "handles_of s1 uid = handles_of s uid"
    using send_loop_connections [of s "handles_of s uid" "json_dumps L data" "[]"] sl
    by (simp add: handles_of_def)
  have "handles_of (snd (send_personal_message L s uid data)) uid
          = fold remove1 dead (handles_of s uid)"
    using False sl c by (simp add: send_personal_message_def handles_of_fold_disconnect)
  also have "\<dots> = filter (\<lambda>ws. ws \<notin> set (broken s)) (handles_of s uid)"
    using fold_remove1_filter [of "[]" "\<lambda>ws. ws \<in> set (broken s)" "handles_of s uid"] d
    by simp
  finally show ?thesis .
qed

lemma send_personal_message_no_empty:
  "no_empty_entries s \<Longrightarrow> no_empty_entries (snd (send_personal_message L s uid data))"
proof (cases "handles_of s uid = []")
  case True
  assume "no_empty_entries s"
  with True show ?thesis by (simp add: send_personal_message_def)
next
  case False
  assume inv: "no_empty_entries s"
  obtain dead s1 where sl: "send_loop s (handles_of s uid) (json_dumps L data) [] = (dead, s1)"
    by (cases "send_loop s (handles_of s uid) (json_dumps L data) []")
  have "connections s1 = connections s"
    using send_loop_connections [of s "handles_of s uid" "json_dumps L data" "[]"] sl by simp
  with inv have "no_empty_entries s1" by (simp add: no_empty_entries_def)
  then show ?thesis
    using False sl by (simp add: send_personal_message_def no_empty_fold_disconnect)
qed

lemma broadcast_no_empty:
  "no_empty_entries s \<Longrightarrow> no_empty_entries (snd (broadcast L s data))"
proof -
  assume inv: "no_empty_entries s"
  obtain dead s1 where bo: "broadcast_outer s (connections s) (json_dumps L data) [] = (dead, s1)"
    by (cases "broadcast_outer s (connections s) (json_dumps L data) []")
  have "connections s1 = connections s"
    using broadcast_outer_connections [of s "connections s" "json_dumps L data" "[]"] bo by simp
  with inv have "no_empty_entries s1" by (simp add: no_empty_entries_def)
  then show ?thesis
    using bo by (simp add: broadcast_def no_empty_fold_disconnect_pairs)
qed


lemma handles_of_connect:
  "connect s ws uid = (Inr (), s1) \<Longrightarrow> handles_of s1 uid = handles_of s uid @ [ws]"
  by (auto simp: connect_def ws_accept_def handles_of_def Let_def AList.update_conv'
      split: if_splits option.splits)

text \<open>
  Claim C7.  The registry invariant "no empty entries persist": the empty registry has it,
  and \<open>connect\<close>, \<open>disconnect\<close>, \<open>send_personal_message\<close> and \<open>broadcast\<close> keep it, whether the
  channel operations succeed or raise.  \<open>is_connected\<close> is true exactly when the user has at
  least one handle; for a user without handles it is false, true after one successful
  \<open>connect\<close>, and false again after the matching \<open>disconnect\<close>.
\<close>

theorem registry_no_empty_entries:
  "(connections s = [] \<longrightarrow> no_empty_entries s) \<and>
   (no_empty_entries s \<longrightarrow>
      no_empty_entries (snd (connect s ws uid)) \<and>
      no_empty_entries (disconnect s ws uid) \<and>
      no_empty_entries (snd (send_personal_message L s uid data)) \<and>
      no_empty_entries (snd (broadcast L s data))) \<and>
   (is_connected s uid \<longleftrightarrow> handles_of s uid \<noteq> []) \<and>
   (handles_of s uid = [] \<longrightarrow> \<not> is_connected s uid) \<and>
   (handles_of s uid = [] \<and> connect s ws uid = (Inr (), s1) \<longrightarrow>
      is_connected s1 uid \<and> \<not> is_connected (disconnect s1 ws uid) uid)"
proof -
  have a: "connections s = [] \<longrightarrow> no_empty_entries s"
    by (simp add: no_empty_entries_def)
  have b: "no_empty_entries s \<longrightarrow>
      no_empty_entries (snd (connect s ws uid)) \<and>
      no_empty_entries (disconnect s ws uid) \<and>
      no_empty_entries (snd (send_personal_message L s uid data)) \<and>
      no_empty_entries (snd (broadcast L s data))"
    using no_empty_connect no_empty_disconnect send_personal_message_no_empty broadcast_no_empty
    by blast
  have c: "is_connected s uid \<longleftrightarrow> handles_of s uid \<noteq> []"
    by (rule is_connected_handles)
  have d: "handles_of s uid = [] \<and> connect s ws uid = (Inr (), s1) \<longrightarrow>
      is_connected s1 uid \<and> \<not> is_connected (disconnect s1 ws uid) uid"
  proof (intro impI, elim conjE)
    assume h: "handles_of s uid = []" and k: "connect s ws uid = (Inr (), s1)"
    from handles_of_connect [OF k] h have "handles_of s1 uid = [ws]" by simp
    then show "is_connected s1 uid \<and> \<not> is_connected (disconnect s1 ws uid) uid"
      by (simp add: is_connected_handles handles_of_disconnect_same)
  qed
  from a b c d show ?thesis by simp
qed

theorem registry_no_empty_entries_witness:
  "no_empty_entries empty_sys \<and>
   \<not> is_connected empty_sys ''i'' \<and>
   is_connected (snd (connect empty_sys 7 ''i'')) ''i'' \<and>
   no_empty_entries (snd (connect empty_sys 7 ''i'')) \<and>
   \<not> is_connected (disconnect (snd (connect empty_sys 7 ''i'')) 7 ''i'') ''i'' \<and>
   no_empty_entries (disconnect (snd (connect empty_sys 7 ''i'')) 7 ''i'')"
proof -
  have e: "connections empty_sys = []" "handles_of empty_sys ''i'' = []"
    by (simp_all add: empty_sys_def handles_of_def)
  have k: "connect empty_sys 7 ''i'' =
             (Inr (), empty_sys\<lparr>accepted := [7], connections := [(''i'', [7])]\<rparr>)"
    by (simp add: connect_def ws_accept_def empty_sys_def Let_def)
  note t0 = registry_no_empty_entries
    [of empty_sys 7 "''i''" example_lib PNone
        "empty_sys\<lparr>accepted := [7], connections := [(''i'', [7])]\<rparr>"]
  note t1 = registry_no_empty_entries
    [of "snd (connect empty_sys 7 ''i'')" 7 "''i''" example_lib PNone empty_sys]
  from t0 e k t1 show ?thesis by simp
qed


lemma send_personal_message_result: "fst (send_personal_message L s uid data) = Inr ()"
  by (simp add: send_personal_message_def Let_def split: prod.splits)

lemma send_attempts_disconnect: "send_attempts (disconnect s ws uid) = send_attempts s"
  by (simp add: disconnect_def Let_def split: option.splits)

lemma send_attempts_fold_disconnect:
  "send_attempts (fold (\<lambda>ws st. disconnect st ws uid) dead s) = send_attempts s"
  by (induction dead arbitrary: s) (simp_all add: send_attempts_disconnect)

lemma send_personal_message_attempts:
  "send_attempts (snd (send_personal_message L s uid data))
     = send_attempts s @ map (\<lambda>ws. (ws, json_dumps L data)) (handles_of s uid)"
proof (cases "handles_of s uid = []")
  case True
  then show ?thesis by (simp add: send_personal_message_def)
next
  case False
  obtain dead s1 where sl: "send_loop s (handles_of s uid) (json_dumps L data) [] = (dead, s1)"
    by (cases "send_loop s (handles_of s uid) (json_dumps L data) []")
  have "send_attempts s1 = send_attempts s @ map (\<lambda>ws. (ws, json_dumps L data)) (handles_of s uid)"
    using send_loop_attempts [of s "handles_of s uid" "json_dumps L data" "[]"] sl by simp
  then show ?thesis
    using False sl by (simp add: send_personal_message_def send_attempts_fold_disconnect)
qed

lemma send_personal_message_other:
  assumes "v \<noteq> uid"
  shows "handles_of (snd (send_personal_message L s uid data)) v = handles_of s v"
proof (cases "handles_of s uid = []")
  case True
  then show ?thesis by (simp add: send_personal_message_def)
next
  case False
  obtain dead s1 where sl: "send_loop s (handles_of s uid) (json_dumps L data) [] = (dead, s1)"
    by (cases "send_loop s (handles_of s uid) (json_dumps L data) []")
  have "handles_of s1 v = handles_of s v"
    using send_loop_connections [of s "handles_of s uid" "json_dumps L data" "[]"] sl
    by (simp add: handles_of_def)
  then show ?thesis
    using False sl assms
    by (simp add: send_personal_message_def handles_of_fold_disconnect_other)
qed

text \<open>
  Claim C6.  \<open>send_personal_message\<close> never raises; it attempts one send of the serialized
  message on every handle of the user, in order; afterwards the user's handles are those
  whose send succeeded (every handle whose send failed is disconnected), the other users'
  handles are untouched, and the user stays connected exactly when some send succeeded.
  With no handle the call changes nothing.
\<close>

theorem send_personal_message_best_effort:
  "fst (send_personal_message L s uid data) = Inr () \<and>
   send_attempts (snd (send_personal_message L s uid data))
     = send_attempts s @ map (\<lambda>ws. (ws, json_dumps L data)) (handles_of s uid) \<and>
   handles_of (snd (send_personal_message L s uid data)) uid
     = filter (\<lambda>ws. ws \<notin> set (broken s)) (handles_of s uid) \<and>
   (\<forall>v. v \<noteq> uid \<longrightarrow> handles_of (snd (send_personal_message L s uid data)) v = handles_of s v) \<and>
   (is_connected (snd (send_personal_message L s uid data)) uid
      \<longleftrightarrow> (\<exists>ws \<in> set (handles_of s uid). ws \<notin> set (broken s))) \<and>
   (handles_of s uid = [] \<longrightarrow> send_personal_message L s uid data = (Inr (), s))"
proof -
  have "is_connected (snd (send_personal_message L s uid data)) uid
      \<longleftrightarrow> (\<exists>ws \<in> set (handles_of s uid). ws \<notin> set (broken s))"
    by (simp add: is_connected_handles send_personal_message_handles filter_empty_conv)
  moreover have "handles_of s uid = [] \<longrightarrow> send_personal_message L s uid data = (Inr (), s)"
    by (simp add: send_personal_message_def)
  ultimately show ?thesis
    using send_personal_message_result send_personal_message_attempts
      send_personal_message_handles send_personal_message_other
    by blast
qed

theorem send_personal_message_best_effort_witness:
  "fst (send_personal_message example_lib
          (empty_sys\<lparr>connections := [(''i'', [7, 8]), (''ii'', [9])], broken := [8]\<rparr>)
          ''i'' PNone) = Inr () \<and>
   send_attempts (snd (send_personal_message example_lib
          (empty_sys\<lparr>connections := [(''i'', [7, 8]), (''ii'', [9])], broken := [8]\<rparr>)
          ''i'' PNone))
     = [(7, ''{}''), (8, ''{}'')] \<and>
   handles_of (snd (send_personal_message example_lib
          (empty_sys\<lparr>connections := [(''i'', [7, 8]), (''ii'', [9])], broken := [8]\<rparr>)
          ''i'' PNone)) ''i'' = [7] \<and>
   handles_of (snd (send_personal_message example_lib
          (empty_sys\<lparr>connections := [(''i'', [7, 8]), (''ii'', [9])], broken := [8]\<rparr>)
          ''i'' PNone)) ''ii'' = [9] \<and>
   is_connected (snd (send_personal_message example_lib
          (empty_sys\<lparr>connections := [(''i'', [7, 8]), (''ii'', [9])], broken := [8]\<rparr>)
          ''i'' PNone)) ''i'' \<and>
   send_personal_message example_lib empty_sys ''i'' PNone = (Inr (), empty_sys)"
proof -
  have h: "handles_of (empty_sys\<lparr>connections := [(''i'', [7, 8]), (''ii'', [9])], broken := [8]\<rparr>)
             ''i'' = [7, 8]"
    "handles_of (empty_sys\<lparr>connections := [(''i'', [7, 8]), (''ii'', [9])], broken := [8]\<rparr>)
             ''ii'' = [9]"
    "handles_of empty_sys ''i'' = []"
    by (simp_all add: handles_of_def empty_sys_def)
  have b: "broken (empty_sys\<lparr>connections := [(''i'', [7, 8]), (''ii'', [9])], broken := [8]\<rparr>) = [8]"
    "send_attempts (empty_sys\<lparr>connections := [(''i'', [7, 8]), (''ii'', [9])], broken := [8]\<rparr>) = []"
    by (simp_all add: empty_sys_def)
  have ne: "''ii'' \<noteq> ''i''" by simp
  note t0 = send_personal_message_best_effort
    [where L = example_lib and uid = "''i''" and data = PNone
       and s = "empty_sys\<lparr>connections := [(''i'', [7, 8]), (''ii'', [9])], broken := [8]\<rparr>"]
  note t1 = send_personal_message_best_effort
    [where L = example_lib and s = empty_sys and uid = "''i''" and data = PNone]
  note other = t0 [THEN conjunct2, THEN conjunct2, THEN conjunct2, THEN conjunct1, THEN spec,
      THEN mp, OF ne]
  from t0 t1 other h b show ?thesis by (simp add: example_lib_def)
qed

text \<open>
  Claim C4, as amended.  A missing (absent or empty) token closes the channel with code
  4001 and the reason "Missing authentication token"; an invalid or expired token closes it
  with the same code 4001 and the reason "Invalid or expired token"; a token whose subject
  differs from the requested identity closes it with code 4003.  Whenever the endpoint
  closes the channel, the registry and the set of accepted channels are unchanged:
  \<open>connect\<close> was not invoked.
\<close>

theorem websocket_endpoint_rejections:
  "(token_param = None \<or> token_param = Some [] \<longrightarrow>
      websocket_endpoint L s ws uid token_param
        = (Closed 4001 ''Missing authentication token'',
           ws_close s ws 4001 ''Missing authentication token'')) \<and>
   (token_param = Some token \<and> token \<noteq> [] \<and> decode_access_token L token = Inl JWTError \<longrightarrow>
      websocket_endpoint L s ws uid token_param
        = (Closed 4001 ''Invalid or expired token'',
           ws_close s ws 4001 ''Invalid or expired token'')) \<and>
   (token_param = Some token \<and> token \<noteq> [] \<and> decode_access_token L token = Inr payload \<and>
    map_of payload ''sub'' \<noteq> Some (PStr uid) \<longrightarrow>
      websocket_endpoint L s ws uid token_param
        = (Closed 4003 ''Token user_id mismatch'',
           ws_close s ws 4003 ''Token user_id mismatch'')) \<and>
   (\<forall>code reason. fst (websocket_endpoint L s ws uid token_param) = Closed code reason \<longrightarrow>
      connections (snd (websocket_endpoint L s ws uid token_param)) = connections s \<and>
      accepted (snd (websocket_endpoint L s ws uid token_param)) = accepted s \<and>
      closes (snd (websocket_endpoint L s ws uid token_param)) = closes s @ [(ws, code, reason)])"
  by (auto simp: websocket_endpoint_def ws_close_def split: option.splits sum.splits error.splits prod.splits)

theorem websocket_endpoint_rejections_witness:
  "websocket_endpoint example_lib empty_sys 7 ''i'' None
     = (Closed 4001 ''Missing authentication token'',
        empty_sys\<lparr>closes := [(7, 4001, ''Missing authentication token'')]\<rparr>) \<and>
   websocket_endpoint example_lib empty_sys 7 ''i'' (Some ''bad'')
     = (Closed 4001 ''Invalid or expired token'',
        empty_sys\<lparr>closes := [(7, 4001, ''Invalid or expired token'')]\<rparr>) \<and>
   websocket_endpoint example_lib empty_sys 7 ''ii'' (Some ''good'')
     = (Closed 4003 ''Token user_id mismatch'',
        empty_sys\<lparr>closes := [(7, 4003, ''Token user_id mismatch'')]\<rparr>) \<and>
   connections (snd (websocket_endpoint example_lib empty_sys 7 ''ii'' (Some ''good''))) = []"
proof -
  have d1: "decode_access_token example_lib ''bad'' = Inl JWTError"
    by (simp add: decode_access_token_def example_lib_def)
  have d2: "decode_access_token example_lib ''good''
              = Inr [(''sub'', PStr ''i''), (''type'', PStr ''access'')]"
    by (simp add: decode_access_token_def example_lib_def)
  note a = websocket_endpoint_rejections
    [where token_param = None and L = example_lib and s = empty_sys and ws = 7 and uid = "''i''"]
  note b = websocket_endpoint_rejections
    [where token_param = "Some ''bad''" and token = "''bad''" and L = example_lib
       and s = empty_sys and ws = 7 and uid = "''i''"]
  note c = websocket_endpoint_rejections
    [where token_param = "Some ''good''" and token = "''good''" and L = example_lib
       and payload = "[(''sub'', PStr ''i''), (''type'', PStr ''access'')]"
       and s = empty_sys and ws = 7 and uid = "''ii''"]
  from a b c d1 d2 show ?thesis by (simp add: ws_close_def empty_sys_def)
qed

text \<open>
  The close codes of the first two cases are not distinguishable: a request without a token
  and a request with an invalid token are both closed with 4001.
\<close>

theorem close_codes_not_distinct:
  "close_code (fst (websocket_endpoint example_lib empty_sys 7 ''i'' None))
     = close_code (fst (websocket_endpoint example_lib empty_sys 7 ''i'' (Some ''bad'')))"
  by (simp add: websocket_endpoint_def decode_access_token_def example_lib_def)

section \<open>Frame lemmas of the storage and push operations\<close>

lemma same_db_refl: "same_db s s"
  by (simp add: same_db_def same_tables_def)

lemma same_db_trans: "same_db a b \<Longrightarrow> same_db b c \<Longrightarrow> same_db a c"
  by (simp add: same_db_def same_tables_def)

lemma send_text_same_db: "same_db s (snd (send_text s ws m))"
  by (simp add: send_text_def Let_def same_db_def same_tables_def)

lemma disconnect_same_db: "same_db s (disconnect s ws uid)"
  by (simp add: disconnect_def Let_def same_db_def same_tables_def split: option.splits)

lemma send_loop_same_db: "same_db s (snd (send_loop s conns m dead))"
proof (induction conns arbitrary: s dead)
  case Nil
  show ?case by (simp add: same_db_refl)
next
  case (Cons ws rest)
  obtain r s1 where st: "send_text s ws m = (r, s1)" by (cases "send_text s ws m")
  have a: "same_db s s1" using send_text_same_db [of s ws m] st by simp
  have "same_db s1 (snd (send_loop s (ws # rest) m dead))"
    using Cons.IH [of s1] st by (cases r) simp_all
  with a show ?case by (rule same_db_trans)
qed

lemma fold_disconnect_same_db:
  "same_db s (fold (\<lambda>ws st. disconnect st ws uid) dead s)"
proof (induction dead arbitrary: s)
  case Nil
  show ?case by (simp add: same_db_refl)
next
  case (Cons ws dead)
  have "same_db s (disconnect s ws uid)" by (rule disconnect_same_db)
  moreover have "same_db (disconnect s ws uid) (fold (\<lambda>ws st. disconnect st ws uid) (ws # dead) s)"
    using Cons.IH [of "disconnect s ws uid"] by simp
  ultimately show ?case by (rule same_db_trans)
qed

lemma send_personal_message_same_db:
  "same_db s (snd (send_personal_message L s uid data))"
proof (cases "handles_of s uid = []")
  case True
  then show ?thesis by (simp add: send_personal_message_def same_db_refl)
next
  case False
  obtain dead s1 where sl: "send_loop s (handles_of s uid) (json_dumps L data) [] = (dead, s1)"
    by (cases "send_loop s (handles_of s uid) (json_dumps L data) []")
  have a: "same_db s s1"
    using send_loop_same_db [of s "handles_of s uid" "json_dumps L data" "[]"] sl by simp
  have "same_db s1 (fold (\<lambda>ws st. disconnect st ws uid) dead s1)"
    by (rule fold_disconnect_same_db)
  with a have "same_db s (fold (\<lambda>ws st. disconnect st ws uid) dead s1)"
    by (rule same_db_trans)
  then show ?thesis using False sl by (simp add: send_personal_message_def)
qed

lemma flush_outcome:
  assumes "flush s = (r, s1)"
  shows "(r = Inr () \<or> r = Inl DbFailure) \<and> same_tables s s1 \<and>
         notifications s1 = notifications s \<and> activity_logs s1 = activity_logs s \<and>
         next_uuid s1 = next_uuid s \<and> now s1 = now s \<and> connections s1 = connections s \<and>
         broken s1 = broken s \<and> send_attempts s1 = send_attempts s \<and>
         error_log s1 = error_log s"
  using assms by (auto simp: flush_def same_tables_def split: list.splits if_splits)

lemma create_notification_ok:
  assumes "create_notification s uid message ntype ref = (Inr n, s1)"
  shows "n = \<lparr>n_id = next_uuid s, n_user_id = uid, n_message = message, n_type = ntype,
              n_reference_id = ref, n_is_read = False, n_created_at = now s\<rparr> \<and>
         notifications s1 = notifications s @ [n] \<and> same_tables s s1 \<and>
         connections s1 = connections s \<and> broken s1 = broken s \<and>
         send_attempts s1 = send_attempts s \<and> fst (flush s) = Inr ()"
proof -
  obtain r s0 where f: "flush s = (r, s0)" by (cases "flush s")
  from flush_outcome [OF f] assms f show ?thesis
    by (auto simp: create_notification_def Let_def same_tables_def split: sum.splits)
qed

lemma create_notification_error:
  assumes "create_notification s uid message ntype ref = (Inl e, s1)"
  shows "e = DbFailure \<and> notifications s1 = notifications s \<and> same_tables s s1 \<and>
         connections s1 = connections s \<and> send_attempts s1 = send_attempts s \<and>
         fst (flush s) = Inl DbFailure"
proof -
  obtain r s0 where f: "flush s = (r, s0)" by (cases "flush s")
  from flush_outcome [OF f] assms f show ?thesis
    by (auto simp: create_notification_def Let_def same_tables_def split: sum.splits)
qed

lemma notify_user_ok:
  assumes "notify_user L s uid message ntype ref = (Inr x, s')"
  shows "notifications s' = notifications s @
           [\<lparr>n_id = next_uuid s, n_user_id = uid, n_message = message, n_type = ntype,
             n_reference_id = ref, n_is_read = False, n_created_at = now s\<rparr>] \<and>
         same_tables s s'"
proof -
  obtain r s1 where c: "create_notification s uid message ntype ref = (r, s1)"
    by (cases "create_notification s uid message ntype ref")
  show ?thesis
  proof (cases r)
    case (Inl e)
    with c assms show ?thesis by (simp add: notify_user_def)
  next
    case (Inr n)
    note ok = create_notification_ok [OF c [unfolded Inr]]
    have sd: "same_db s1 (snd (send_personal_message L s1 (str_uuid L uid)
                 (push_payload L n message ntype ref)))"
      by (rule send_personal_message_same_db)
    have "same_db s1 s'"
      using assms c Inr sd by (auto simp: notify_user_def same_db_refl split: if_splits)
    with ok show ?thesis by (auto simp: same_db_def same_tables_def)
  qed
qed

lemma notify_user_error:
  assumes "notify_user L s uid message ntype ref = (Inl e, s')"
  shows "e = DbFailure \<and> notifications s' = notifications s \<and> same_tables s s' \<and>
         send_attempts s' = send_attempts s"
proof -
  obtain r s1 where c: "create_notification s uid message ntype ref = (r, s1)"
    by (cases "create_notification s uid message ntype ref")
  show ?thesis
  proof (cases r)
    case (Inl e1)
    from c Inl assms have "e1 = e" "s1 = s'" by (simp_all add: notify_user_def)
    with create_notification_error [OF c [unfolded Inl]] show ?thesis by simp
  next
    case (Inr n)
    have "fst (send_personal_message L s1 (str_uuid L uid)
                 (push_payload L n message ntype ref)) = Inr ()"
      by (rule send_personal_message_result)
    with assms c Inr show ?thesis
      by (auto simp: notify_user_def split: if_splits)
  qed
qed

lemma activity_service_log_ok:
  assumes "activity_service_log s uid action et eid meta = (Inr entry, s1)"
  shows "same_tables s s1 \<and> notifications s1 = notifications s \<and>
         connections s1 = connections s \<and> send_attempts s1 = send_attempts s"
proof -
  obtain r s0 where f: "flush s = (r, s0)" by (cases "flush s")
  from flush_outcome [OF f] assms f show ?thesis
    by (auto simp: activity_service_log_def Let_def same_tables_def split: sum.splits)
qed

lemma activity_service_log_error:
  assumes "activity_service_log s uid action et eid meta = (Inl e, s1)"
  shows "e = DbFailure \<and> same_tables s s1 \<and> notifications s1 = notifications s"
proof -
  obtain r s0 where f: "flush s = (r, s0)" by (cases "flush s")
  from flush_outcome [OF f] assms f show ?thesis
    by (auto simp: activity_service_log_def Let_def same_tables_def split: sum.splits)
qed


section \<open>Team membership: owner protection\<close>

text \<open>
  Claim C1.  A \<open>remove_member\<close> request that targets the owner of an existing team raises
  \<open>Forbidden\<close> with the owner-protection message and returns the state it was given, so no
  membership row changes.  The caller is arbitrary: the outcome is the same for a plain
  member, a manager, the owner and an admin, because the owner check stands before
  \<open>assert_manager_or_admin\<close>.
\<close>

theorem remove_member_owner_protected:
  "crud_team_get s tid = Some team \<Longrightarrow> team_owner_id team = uid \<Longrightarrow>
   remove_member L s tid uid current_user = (Inl (Forbidden ''Cannot remove the team owner''), s)"
  by (simp add: remove_member_def)

lemma is_connected_cong:
  "connections s1 = connections s \<Longrightarrow> is_connected s1 u = is_connected s u"
  by (simp add: is_connected_def)

section \<open>Notification dispatch\<close>

text \<open>
  Claim C2.  \<open>notify_user\<close> first writes the notification.  When the write does not raise,
  exactly one record is appended, with \<open>is_read = False\<close>, before any push is attempted
  (the intermediate state \<open>s1\<close> holds the record and no new send attempt); the call returns
  normally and the record is still there whatever the channels do; a connected user gets
  the push from \<open>s1\<close>, and for a user without a live connection the call ends in \<open>s1\<close> with
  no send attempt.  When the write itself raises, the exception reaches the caller and
  nothing is pushed.
\<close>

theorem notify_user_persists_then_pushes:
  "(let n = \<lparr>n_id = next_uuid s, n_user_id = uid, n_message = message, n_type = ntype,
             n_reference_id = ref, n_is_read = False, n_created_at = now s\<rparr>;
        s1 = snd (create_notification s uid message ntype ref);
        r = notify_user L s uid message ntype ref
    in (fst (flush s) = Inr () \<longrightarrow>
          create_notification s uid message ntype ref = (Inr n, s1) \<and>
          notifications s1 = notifications s @ [n] \<and>
          send_attempts s1 = send_attempts s \<and>
          fst r = Inr () \<and>
          notifications (snd r) = notifications s @ [n] \<and>
          (if is_connected s (str_uuid L uid)
           then snd r = snd (send_personal_message L s1 (str_uuid L uid)
                               (push_payload L n message ntype ref))
           else snd r = s1 \<and> send_attempts (snd r) = send_attempts s)) \<and>
       (fst (flush s) \<noteq> Inr () \<longrightarrow>
          fst r = Inl DbFailure \<and> notifications (snd r) = notifications s \<and>
          send_attempts (snd r) = send_attempts s))"
proof -
  define n where "n = \<lparr>n_id = next_uuid s, n_user_id = uid, n_message = message, n_type = ntype,
             n_reference_id = ref, n_is_read = False, n_created_at = now s\<rparr>"
  define s1 where "s1 = snd (create_notification s uid message ntype ref)"
  define r where "r = notify_user L s uid message ntype ref"
  obtain c where c: "create_notification s uid message ntype ref = (c, s1)"
    by (cases "create_notification s uid message ntype ref") (simp add: s1_def)
  have ok: "fst (flush s) = Inr () \<longrightarrow>
          create_notification s uid message ntype ref = (Inr n, s1) \<and>
          notifications s1 = notifications s @ [n] \<and>
          send_attempts s1 = send_attempts s \<and>
          fst r = Inr () \<and>
          notifications (snd r) = notifications s @ [n] \<and>
          (if is_connected s (str_uuid L uid)
           then snd r = snd (send_personal_message L s1 (str_uuid L uid)
                               (push_payload L n message ntype ref))
           else snd r = s1 \<and> send_attempts (snd r) = send_attempts s)"
  proof
    assume f: "fst (flush s) = Inr ()"
    have cn: "c = Inr n"
    proof (cases c)
      case (Inl e)
      with create_notification_error [OF c [unfolded Inl]] f show ?thesis by simp
    next
      case (Inr m)
      with create_notification_ok [OF c [unfolded Inr]] show ?thesis by (simp add: n_def)
    qed
    note k = create_notification_ok [OF c [unfolded cn]]
    have ic: "is_connected s1 (str_uuid L uid) = is_connected s (str_uuid L uid)"
      using k is_connected_cong [of s1 s "str_uuid L uid"] by simp
    have r_eq: "r = (if is_connected s (str_uuid L uid)
                      then send_personal_message L s1 (str_uuid L uid)
                             (push_payload L n message ntype ref)
                      else (Inr (), s1))"
      using c cn ic by (simp add: r_def notify_user_def)
    have res: "fst r = Inr ()"
      by (simp add: r_eq send_personal_message_result)
    have sd: "same_db s1 (snd (send_personal_message L s1 (str_uuid L uid)
                                 (push_payload L n message ntype ref)))"
      by (rule send_personal_message_same_db)
    have nt: "notifications (snd r) = notifications s @ [n]"
      using sd k by (simp add: r_eq same_db_def)
    show "create_notification s uid message ntype ref = (Inr n, s1) \<and>
          notifications s1 = notifications s @ [n] \<and>
          send_attempts s1 = send_attempts s \<and>
          fst r = Inr () \<and>
          notifications (snd r) = notifications s @ [n] \<and>
          (if is_connected s (str_uuid L uid)
           then snd r = snd (send_personal_message L s1 (str_uuid L uid)
                               (push_payload L n message ntype ref))
           else snd r = s1 \<and> send_attempts (snd r) = send_attempts s)"
      using c cn k res nt by (simp add: r_eq)
  qed
  have bad: "fst (flush s) \<noteq> Inr () \<longrightarrow>
          fst r = Inl DbFailure \<and> notifications (snd r) = notifications s \<and>
          send_attempts (snd r) = send_attempts s"
  proof
    assume f: "fst (flush s) \<noteq> Inr ()"
    obtain e where ce: "c = Inl e"
    proof (cases c)
      case (Inl e)
      then show ?thesis by (rule that)
    next
      case (Inr m)
      with create_notification_ok [OF c [unfolded Inr]] f show ?thesis by simp
    qed
    have "r = (Inl e, s1)" using c ce by (simp add: r_def notify_user_def)
    with create_notification_error [OF c [unfolded ce]]
    show "fst r = Inl DbFailure \<and> notifications (snd r) = notifications s \<and>
          send_attempts (snd r) = send_attempts s"
      by simp
  qed
  from ok bad show ?thesis
    unfolding Let_def n_def [symmetric] s1_def [symmetric] r_def [symmetric] by simp
qed


theorem remove_member_owner_protected_witness:
  "remove_member example_lib example_sys 10 1 root_admin
     = (Inl (Forbidden ''Cannot remove the team owner''), example_sys) \<and>
   remove_member example_lib example_sys 10 1 bob
     = (Inl (Forbidden ''Cannot remove the team owner''), example_sys) \<and>
   assert_manager_or_admin example_sys team10 bob
     = Inl (Forbidden ''Only team managers or admins can perform this action'')"
proof -
  have g: "crud_team_get example_sys 10 = Some team10"
    by (simp add: crud_team_get_def example_sys_def empty_sys_def team10_def)
  have o: "team_owner_id team10 = 1" by (simp add: team10_def)
  have a: "assert_manager_or_admin example_sys team10 bob
     = Inl (Forbidden ''Only team managers or admins can perform this action'')"
    by (simp add: assert_manager_or_admin_def get_member_def example_sys_def empty_sys_def
        team10_def bob_def)
  from remove_member_owner_protected [OF g o, of example_lib root_admin]
    remove_member_owner_protected [OF g o, of example_lib bob] a
  show ?thesis by simp
qed

theorem notify_user_persists_then_pushes_witness:
  "fst (notify_user example_lib
          (example_sys\<lparr>connections := [(''ii'', [7, 8])], broken := [8]\<rparr>) 2 ''m'' ''system'' None)
     = Inr () \<and>
   notifications (snd (notify_user example_lib
          (example_sys\<lparr>connections := [(''ii'', [7, 8])], broken := [8]\<rparr>) 2 ''m'' ''system'' None))
     = [\<lparr>n_id = 100, n_user_id = 2, n_message = ''m'', n_type = ''system'',
         n_reference_id = None, n_is_read = False, n_created_at = 0\<rparr>] \<and>
   fst (notify_user example_lib example_sys 2 ''m'' ''system'' None) = Inr () \<and>
   notifications (snd (notify_user example_lib example_sys 2 ''m'' ''system'' None))
     = [\<lparr>n_id = 100, n_user_id = 2, n_message = ''m'', n_type = ''system'',
         n_reference_id = None, n_is_read = False, n_created_at = 0\<rparr>] \<and>
   send_attempts (snd (notify_user example_lib example_sys 2 ''m'' ''system'' None)) = [] \<and>
   fst (notify_user example_lib (example_sys\<lparr>flush_faults := [True]\<rparr>) 2 ''m'' ''system'' None)
     = Inl DbFailure \<and>
   notifications (snd (notify_user example_lib (example_sys\<lparr>flush_faults := [True]\<rparr>)
                         2 ''m'' ''system'' None)) = []"
proof -
  note a = notify_user_persists_then_pushes
    [where s = "example_sys\<lparr>connections := [(''ii'', [7, 8])], broken := [8]\<rparr>"
       and L = example_lib and uid = 2 and message = "''m''" and ntype = "''system''"
       and ref = None]
  note b = notify_user_persists_then_pushes
    [where s = example_sys and L = example_lib and uid = 2 and message = "''m''"
       and ntype = "''system''" and ref = None]
  note c = notify_user_persists_then_pushes
    [where s = "example_sys\<lparr>flush_faults := [True]\<rparr>" and L = example_lib and uid = 2
       and message = "''m''" and ntype = "''system''" and ref = None]
  have f: "fst (flush (example_sys\<lparr>connections := [(''ii'', [7, 8])], broken := [8]\<rparr>)) = Inr ()"
    "fst (flush example_sys) = Inr ()"
    "fst (flush (example_sys\<lparr>flush_faults := [True]\<rparr>)) \<noteq> Inr ()"
    by (simp_all add: flush_def example_sys_def empty_sys_def)
  have d: "\<not> is_connected example_sys (str_uuid example_lib 2)"
    by (simp add: is_connected_def example_sys_def empty_sys_def)
  from a b c f d show ?thesis
    by (simp add: Let_def example_sys_def empty_sys_def)
qed

section \<open>Activity log\<close>

text \<open>
  Claim C5 at a failing input.  When the flush of the activity-log entry raises,
  \<open>activity_service_log\<close> raises to its caller; an \<open>update_task\<close> whose own write went
  through is aborted by the failing log write.
\<close>

theorem activity_log_failure_reaches_caller:
  "fst (activity_service_log (example_sys\<lparr>flush_faults := [True]\<rparr>) 2 ''task_updated'' ''task'' 20 None)
     = Inl DbFailure \<and>
   fst (update_task example_lib (example_sys\<lparr>flush_faults := [False, True]\<rparr>) 20
          (no_update\<lparr>tu_title := Given (Some ''Y'')\<rparr>) bob) = Inl DbFailure \<and>
   map title (tasks (snd (update_task example_lib (example_sys\<lparr>flush_faults := [False, True]\<rparr>) 20
          (no_update\<lparr>tu_title := Given (Some ''Y'')\<rparr>) bob))) = [''Y'']"
  by (simp add: activity_service_log_def update_task_def flush_def example_sys_def empty_sys_def
      get_with_relations_def assert_can_modify_def crud_task_update_def apply_update_def
      violates_not_null_def store_task_def set_required_def set_nullable_def
      task20_def bob_def no_update_def Let_def)

section \<open>Task authorization\<close>

lemma find_role_list_ex:
  "distinct (map (\<lambda>m. (tm_team_id m, tm_user_id m)) ms) \<Longrightarrow>
   (case find (\<lambda>m. tm_team_id m = tid \<and> tm_user_id m = uid) ms of
      None \<Rightarrow> False | Some m \<Rightarrow> tm_role m = role)
   = list_ex (\<lambda>m. tm_team_id m = tid \<and> tm_user_id m = uid \<and> tm_role m = role) ms"
proof (induction ms)
  case Nil
  show ?case by simp
next
  case (Cons m ms)
  show ?case
  proof (cases "tm_team_id m = tid \<and> tm_user_id m = uid")
    case True
    with Cons.prems have "(tid, uid) \<notin> (\<lambda>m. (tm_team_id m, tm_user_id m)) ` set ms" by auto
    then have "\<not> list_ex (\<lambda>m. tm_team_id m = tid \<and> tm_user_id m = uid \<and> tm_role m = role) ms"
      by (auto simp: list_ex_iff)
    with True show ?thesis by simp
  next
    case False
    with Cons show ?thesis by auto
  qed
qed

lemma get_member_holds_role:
  "distinct (member_keys s) \<Longrightarrow>
   (case get_member s tid uid of None \<Rightarrow> False | Some m \<Rightarrow> tm_role m = role)
     = holds_role s tid uid role"
  using find_role_list_ex [where ms = "team_members s" and tid = tid and uid = uid and role = role]
  by (simp add: member_keys_def get_member_def holds_role_def)

lemma get_member_holds_membership:
  "(get_member s tid uid \<noteq> None) = holds_membership s tid uid"
  by (auto simp: get_member_def holds_membership_def find_None_iff list_ex_iff)

lemma assert_can_modify_iff:
  "distinct (member_keys s) \<Longrightarrow> (assert_can_modify s t u = Inr ()) = may_modify s t u"
proof (cases "task_team_id t")
  case None
  then show ?thesis by (simp add: assert_can_modify_def may_modify_def)
next
  case (Some x)
  assume d: "distinct (member_keys s)"
  have h: "(case get_member s x (user_id u) of None \<Rightarrow> False | Some m \<Rightarrow> tm_role m = ''manager'')
             = holds_role s x (user_id u) ''manager''"
    using d by (rule get_member_holds_role)
  show ?thesis
    using Some h
    by (cases "get_member s x (user_id u)") (simp_all add: assert_can_modify_def may_modify_def)
qed

lemma assert_can_modify_cases:
  "assert_can_modify s t u = Inr () \<or>
   assert_can_modify s t u
     = Inl (Forbidden ''Only the task owner, team manager, or admin can modify this task'')"
  by (simp add: assert_can_modify_def split: option.splits)

lemma crud_task_update_error:
  assumes "crud_task_update s t upd = (Inl e, s1)"
  shows "e = DbFailure"
proof -
  obtain r s0 where f: "flush s = (r, s0)" by (cases "flush s")
  from flush_outcome [OF f] assms f show ?thesis
    by (auto simp: crud_task_update_def Let_def split: sum.splits if_splits)
qed

lemma crud_task_archive_error:
  assumes "crud_task_archive s t = (Inl e, s1)"
  shows "e = DbFailure"
proof -
  obtain r s0 where f: "flush s = (r, s0)" by (cases "flush s")
  from flush_outcome [OF f] assms f show ?thesis
    by (auto simp: crud_task_archive_def Let_def split: sum.splits if_splits)
qed

lemma notify_task_assigned_error:
  "notify_task_assigned L s a tid ttl nm = (Inl e, s1) \<Longrightarrow> e = DbFailure"
  by (auto simp: notify_task_assigned_def dest: notify_user_error)

lemma notify_task_updated_error:
  "notify_task_updated L s a tid ttl nm = (Inl e, s1) \<Longrightarrow> e = DbFailure"
  by (auto simp: notify_task_updated_def dest: notify_user_error)

lemma activity_log_error_kind:
  "activity_service_log s uid action et eid meta = (Inl e, s1) \<Longrightarrow> e = DbFailure"
  using activity_service_log_error by blast

lemma update_task_allowed_errors:
  assumes g: "get_with_relations s tid = Some t"
    and a: "assert_can_modify s t u = Inr ()"
    and r: "fst (update_task L s tid upd u) = Inl e"
  shows "e = DbFailure"
  using r g a
  by (auto simp: update_task_def Let_def split: prod.splits sum.splits option.splits if_splits
      dest: crud_task_update_error activity_log_error_kind notify_task_assigned_error
        notify_task_updated_error)

lemma delete_task_allowed_errors:
  assumes g: "get_with_relations s tid = Some t"
    and a: "assert_can_modify s t u = Inr ()"
    and r: "fst (delete_task L s tid u) = Inl e"
  shows "e = DbFailure"
  using r g a
  by (auto simp: delete_task_def Let_def split: prod.splits sum.splits option.splits if_splits
      dest: crud_task_archive_error activity_log_error_kind)

lemma assign_task_allowed_errors:
  assumes g: "get_with_relations s tid = Some t"
    and a: "assert_can_modify s t u = Inr ()"
    and r: "fst (assign_task L s tid assignee u) = Inl e"
  shows "e = DbFailure"
  using r g a
  by (auto simp: assign_task_def Let_def split: prod.splits sum.splits option.splits if_splits
      dest: crud_task_update_error activity_log_error_kind notify_task_assigned_error)


lemma assert_can_view_member:
  assumes "task_team_id t = Some x" and "holds_membership s x (user_id u)"
  shows "assert_can_view s t u = Inr ()"
proof -
  from assms(2) have "get_member s x (user_id u) \<noteq> None"
    using get_member_holds_membership [of s x "user_id u"] by blast
  then obtain m where "get_member s x (user_id u) = Some m" by auto
  with assms(1) show ?thesis by (simp add: assert_can_view_def)
qed

text \<open>
  Claim C3.  For an existing task (and a membership table that respects its primary key),
  \<open>assert_can_modify\<close> lets the actor pass exactly when the actor is an admin, or owns the
  task, or the task has a team in which the actor holds a manager-role membership
  (\<open>may_modify\<close>); otherwise it raises \<open>Forbidden\<close>.  Each of \<open>update_task\<close>, \<open>delete_task\<close>
  (archive) and \<open>assign_task\<close> ends with a \<open>Forbidden\<close> outcome exactly when \<open>may_modify\<close> is
  false, and then leaves the state unchanged.  An actor who is only the assignee, or only
  a member of the task's team, is refused modification but passes \<open>assert_can_view\<close> and
  gets the task from \<open>get_task\<close>.
\<close>

theorem modify_permission:
  "distinct (member_keys s) \<Longrightarrow> get_with_relations s tid = Some t \<Longrightarrow>
   (assert_can_modify s t u = Inr () \<longleftrightarrow> may_modify s t u) \<and>
   (assert_can_modify s t u
      = Inl (Forbidden ''Only the task owner, team manager, or admin can modify this task'')
    \<longleftrightarrow> \<not> may_modify s t u) \<and>
   ((\<exists>m. fst (update_task L s tid upd u) = Inl (Forbidden m)) \<longleftrightarrow> \<not> may_modify s t u) \<and>
   ((\<exists>m. fst (delete_task L s tid u) = Inl (Forbidden m)) \<longleftrightarrow> \<not> may_modify s t u) \<and>
   ((\<exists>m. fst (assign_task L s tid a u) = Inl (Forbidden m)) \<longleftrightarrow> \<not> may_modify s t u) \<and>
   (\<not> may_modify s t u \<longrightarrow>
      update_task L s tid upd u
        = (Inl (Forbidden ''Only the task owner, team manager, or admin can modify this task''), s) \<and>
      delete_task L s tid u
        = (Inl (Forbidden ''Only the task owner, team manager, or admin can modify this task''), s) \<and>
      assign_task L s tid a u
        = (Inl (Forbidden ''Only the task owner, team manager, or admin can modify this task''), s)) \<and>
   (\<not> may_modify s t u \<and>
    (assigned_to_id t = Some (user_id u) \<or>
     (case task_team_id t of None \<Rightarrow> False | Some x \<Rightarrow> holds_membership s x (user_id u))) \<longrightarrow>
      assert_can_view s t u = Inr () \<and> get_task L s tid u = (Inr t, s))"
proof -
  assume d: "distinct (member_keys s)" and g: "get_with_relations s tid = Some t"
  have iff: "assert_can_modify s t u = Inr () \<longleftrightarrow> may_modify s t u"
    using d by (rule assert_can_modify_iff)
  have deny: "assert_can_modify s t u
      = Inl (Forbidden ''Only the task owner, team manager, or admin can modify this task'')
    \<longleftrightarrow> \<not> may_modify s t u"
    using iff assert_can_modify_cases [of s t u] by auto
  have refused: "\<not> may_modify s t u \<longrightarrow>
      update_task L s tid upd u
        = (Inl (Forbidden ''Only the task owner, team manager, or admin can modify this task''), s) \<and>
      delete_task L s tid u
        = (Inl (Forbidden ''Only the task owner, team manager, or admin can modify this task''), s) \<and>
      assign_task L s tid a u
        = (Inl (Forbidden ''Only the task owner, team manager, or admin can modify this task''), s)"
  proof
    assume "\<not> may_modify s t u"
    with deny have "assert_can_modify s t u
      = Inl (Forbidden ''Only the task owner, team manager, or admin can modify this task'')"
      by simp
    with g show "update_task L s tid upd u
        = (Inl (Forbidden ''Only the task owner, team manager, or admin can modify this task''), s) \<and>
      delete_task L s tid u
        = (Inl (Forbidden ''Only the task owner, team manager, or admin can modify this task''), s) \<and>
      assign_task L s tid a u
        = (Inl (Forbidden ''Only the task owner, team manager, or admin can modify this task''), s)"
      by (simp add: update_task_def delete_task_def assign_task_def)
  qed
  have upd: "(\<exists>m. fst (update_task L s tid upd u) = Inl (Forbidden m)) \<longleftrightarrow> \<not> may_modify s t u"
  proof
    assume "\<exists>m. fst (update_task L s tid upd u) = Inl (Forbidden m)"
    then obtain m where m: "fst (update_task L s tid upd u) = Inl (Forbidden m)" ..
    show "\<not> may_modify s t u"
    proof
      assume "may_modify s t u"
      with iff have "assert_can_modify s t u = Inr ()" by simp
      from update_task_allowed_errors [OF g this m] show False by simp
    qed
  next
    assume "\<not> may_modify s t u"
    with refused show "\<exists>m. fst (update_task L s tid upd u) = Inl (Forbidden m)" by simp
  qed
  have del: "(\<exists>m. fst (delete_task L s tid u) = Inl (Forbidden m)) \<longleftrightarrow> \<not> may_modify s t u"
  proof
    assume "\<exists>m. fst (delete_task L s tid u) = Inl (Forbidden m)"
    then obtain m where m: "fst (delete_task L s tid u) = Inl (Forbidden m)" ..
    show "\<not> may_modify s t u"
    proof
      assume "may_modify s t u"
      with iff have "assert_can_modify s t u = Inr ()" by simp
      from delete_task_allowed_errors [OF g this m] show False by simp
    qed
  next
    assume "\<not> may_modify s t u"
    with refused show "\<exists>m. fst (delete_task L s tid u) = Inl (Forbidden m)" by simp
  qed
  have asg: "(\<exists>m. fst (assign_task L s tid a u) = Inl (Forbidden m)) \<longleftrightarrow> \<not> may_modify s t u"
  proof
    assume "\<exists>m. fst (assign_task L s tid a u) = Inl (Forbidden m)"
    then obtain m where m: "fst (assign_task L s tid a u) = Inl (Forbidden m)" ..
    show "\<not> may_modify s t u"
    proof
      assume "may_modify s t u"
      with iff have "assert_can_modify s t u = Inr ()" by simp
      from assign_task_allowed_errors [OF g this m] show False by simp
    qed
  next
    assume "\<not> may_modify s t u"
    with refused show "\<exists>m. fst (assign_task L s tid a u) = Inl (Forbidden m)" by simp
  qed
  have view: "\<not> may_modify s t u \<and>
    (assigned_to_id t = Some (user_id u) \<or>
     (case task_team_id t of None \<Rightarrow> False | Some x \<Rightarrow> holds_membership s x (user_id u))) \<longrightarrow>
      assert_can_view s t u = Inr () \<and> get_task L s tid u = (Inr t, s)"
  proof (intro impI, elim conjE)
    assume c: "assigned_to_id t = Some (user_id u) \<or>
      (case task_team_id t of None \<Rightarrow> False | Some x \<Rightarrow> holds_membership s x (user_id u))"
    have "assert_can_view s t u = Inr ()"
    proof (cases "assigned_to_id t = Some (user_id u)")
      case True
      then show ?thesis by (simp add: assert_can_view_def)
    next
      case False
      with c obtain x where x: "task_team_id t = Some x" "holds_membership s x (user_id u)"
        by (cases "task_team_id t") auto
      then show ?thesis by (simp add: assert_can_view_member)
    qed
    with g show "assert_can_view s t u = Inr () \<and> get_task L s tid u = (Inr t, s)"
      by (simp add: get_task_def)
  qed
  from iff deny upd del asg refused view show ?thesis by blast
qed

theorem modify_permission_witness:
  "assert_can_modify (member_sys ''member'') task20 alice
     = Inl (Forbidden ''Only the task owner, team manager, or admin can modify this task'') \<and>
   update_task example_lib (member_sys ''member'') 20 no_update alice
     = (Inl (Forbidden ''Only the task owner, team manager, or admin can modify this task''),
        member_sys ''member'') \<and>
   get_task example_lib (member_sys ''member'') 20 alice = (Inr task20, member_sys ''member'') \<and>
   assert_can_modify (member_sys ''manager'') task20 alice = Inr () \<and>
   assert_can_modify (member_sys ''member'') task20 bob = Inr () \<and>
   assert_can_modify (member_sys ''member'') task20 root_admin = Inr ()"
proof -
  have d: "distinct (member_keys (member_sys r))" for r
    by (simp add: member_keys_def member_sys_def example_sys_def empty_sys_def)
  have g: "get_with_relations (member_sys r) 20 = Some task20" for r
    by (simp add: get_with_relations_def member_sys_def example_sys_def empty_sys_def task20_def)
  have m1: "\<not> may_modify (member_sys ''member'') task20 alice"
    by (simp add: may_modify_def holds_role_def member_sys_def example_sys_def empty_sys_def
        task20_def alice_def)
  have m2: "may_modify (member_sys ''manager'') task20 alice"
    by (simp add: may_modify_def holds_role_def member_sys_def example_sys_def empty_sys_def
        task20_def alice_def)
  have m3: "may_modify (member_sys ''member'') task20 bob"
    by (simp add: may_modify_def task20_def bob_def)
  have m4: "may_modify (member_sys ''member'') task20 root_admin"
    by (simp add: may_modify_def root_admin_def)
  have v: "(case task_team_id task20 of None \<Rightarrow> False
            | Some x \<Rightarrow> holds_membership (member_sys ''member'') x (user_id alice))"
    by (simp add: holds_membership_def member_sys_def example_sys_def empty_sys_def
        task20_def alice_def)
  note a = modify_permission [OF d [of "''member''"] g [of "''member''"],
      where u = alice and L = example_lib and upd = no_update and a = 1]
  note b = modify_permission [OF d [of "''manager''"] g [of "''manager''"],
      where u = alice and L = example_lib and upd = no_update and a = 1]
  note c = modify_permission [OF d [of "''member''"] g [of "''member''"],
      where u = bob and L = example_lib and upd = no_update and a = 1]
  note e = modify_permission [OF d [of "''member''"] g [of "''member''"],
      where u = root_admin and L = example_lib and upd = no_update and a = 1]
  from a b c e m1 m2 m3 m4 v show ?thesis by simp
qed

section \<open>Team membership: adding a member\<close>

lemma find_append_left:
  "find P xs = Some x \<Longrightarrow> find P (xs @ ys) = Some x"
  by (induction xs) (auto split: if_splits)

lemma find_append_right:
  "find P xs = None \<Longrightarrow> find P (xs @ ys) = find P ys"
  by (induction xs) (auto split: if_splits)

lemma get_member_None_rows: "(get_member s tid uid = None) = (membership_rows s tid uid = [])"
  by (auto simp: get_member_def membership_rows_def find_None_iff filter_empty_conv)

lemma get_member_None_keys: "(get_member s tid uid = None) = ((tid, uid) \<notin> set (member_keys s))"
  by (auto simp: get_member_def member_keys_def find_None_iff)

lemma crud_team_add_member_ok:
  assumes "crud_team_add_member s tid uid role = (Inr m, s1)"
  shows "m = \<lparr>tm_team_id = tid, tm_user_id = uid, tm_role = role\<rparr> \<and>
         team_members s1 = team_members s @ [m] \<and> teams s1 = teams s \<and> users s1 = users s"
proof -
  obtain r s0 where f: "flush s = (r, s0)" by (cases "flush s")
  from flush_outcome [OF f] assms f show ?thesis
    by (auto simp: crud_team_add_member_def Let_def same_tables_def split: sum.splits)
qed

lemma crud_team_add_member_error:
  assumes "crud_team_add_member s tid uid role = (Inl e, s1)"
  shows "same_tables s s1"
proof -
  obtain r s0 where f: "flush s = (r, s0)" by (cases "flush s")
  from flush_outcome [OF f] assms f show ?thesis
    by (auto simp: crud_team_add_member_def Let_def split: sum.splits)
qed

lemma notify_user_tables: "same_tables s (snd (notify_user L s uid message ntype ref))"
proof (cases "notify_user L s uid message ntype ref")
  case (Pair r s')
  show ?thesis
  proof (cases r)
    case (Inl e)
    with Pair notify_user_error [of L s uid message ntype ref e s'] show ?thesis by simp
  next
    case (Inr x)
    with Pair notify_user_ok [of L s uid message ntype ref x s'] show ?thesis by simp
  qed
qed

lemma activity_service_log_tables:
  "same_tables s (snd (activity_service_log s uid action et eid meta))"
proof (cases "activity_service_log s uid action et eid meta")
  case (Pair r s')
  show ?thesis
  proof (cases r)
    case (Inl e)
    with Pair activity_service_log_error [of s uid action et eid meta e s'] show ?thesis by simp
  next
    case (Inr x)
    with Pair activity_service_log_ok [of s uid action et eid meta x s'] show ?thesis by simp
  qed
qed

text \<open>What a call of \<open>add_member\<close> does to the membership table.\<close>

lemma add_member_table:
  "team_members (snd (add_member L s tid uid role u)) = team_members s \<or>
   (get_member s tid uid = None \<and>
    team_members (snd (add_member L s tid uid role u))
      = team_members s @ [\<lparr>tm_team_id = tid, tm_user_id = uid, tm_role = role\<rparr>])"
proof (cases "crud_team_get s tid")
  case None
  then show ?thesis by (simp add: add_member_def)
next
  case (Some team)
  show ?thesis
  proof (cases "assert_manager_or_admin s team u")
    case (Inl e)
    with Some show ?thesis by (simp add: add_member_def)
  next
    case (Inr x)
    note priv = this
    show ?thesis
    proof (cases "crud_user_get s uid")
      case None
      with Some priv show ?thesis by (simp add: add_member_def)
    next
      case (Some target)
      note tgt = this
      show ?thesis
      proof (cases "get_member s tid uid")
        case (Some existing)
        with \<open>crud_team_get s tid = Some team\<close> priv tgt show ?thesis
          by (simp add: add_member_def)
      next
        case None
        obtain r1 s1 where c: "crud_team_add_member s tid uid role = (r1, s1)"
          by (cases "crud_team_add_member s tid uid role")
        show ?thesis
        proof (cases r1)
          case (Inl e)
          with c crud_team_add_member_error [of s tid uid role e s1]
            \<open>crud_team_get s tid = Some team\<close> priv tgt None
          show ?thesis by (simp add: add_member_def same_tables_def)
        next
          case (Inr member)
          note k = crud_team_add_member_ok [OF c [unfolded Inr]]
          define s2 where "s2 = snd (notify_team_invite L s1 uid tid (team_name team) (username u))"
          define s3 where "s3 = snd (activity_service_log s2 (user_id u) ''team_member_added''
             ''team'' tid (Some (PDict [(''user_id'', PStr (str_uuid L uid)), (''role'', PStr role)])))"
          have t2: "same_tables s1 s2"
            unfolding s2_def notify_team_invite_def by (rule notify_user_tables)
          have t3: "same_tables s2 s3"
            unfolding s3_def by (rule activity_service_log_tables)
          have "snd (add_member L s tid uid role u) = s2 \<or> snd (add_member L s tid uid role u) = s3"
            using c Inr \<open>crud_team_get s tid = Some team\<close> priv tgt None
            by (auto simp: add_member_def s2_def s3_def split: prod.splits sum.splits)
          then have "team_members (snd (add_member L s tid uid role u)) = team_members s1"
            using t2 t3 by (auto simp: same_tables_def)
          with k None show ?thesis by simp
        qed
      qed
    qed
  qed
qed


lemma add_member_ok:
  assumes ok: "add_member L s tid uid role u = (Inr member, s')"
  shows "\<exists>team target.
           crud_team_get s tid = Some team \<and> assert_manager_or_admin s team u = Inr () \<and>
           crud_user_get s uid = Some target \<and> get_member s tid uid = None \<and>
           member = \<lparr>tm_team_id = tid, tm_user_id = uid, tm_role = role\<rparr> \<and>
           team_members s' = team_members s @ [member] \<and>
           teams s' = teams s \<and> users s' = users s"
proof -
  obtain team where tm: "crud_team_get s tid = Some team"
    using ok by (cases "crud_team_get s tid") (simp_all add: add_member_def)
  have priv: "assert_manager_or_admin s team u = Inr ()"
    using ok tm by (cases "assert_manager_or_admin s team u") (simp_all add: add_member_def)
  obtain target where tgt: "crud_user_get s uid = Some target"
    using ok tm priv by (cases "crud_user_get s uid") (simp_all add: add_member_def)
  have none: "get_member s tid uid = None"
    using ok tm priv tgt by (cases "get_member s tid uid") (simp_all add: add_member_def)
  obtain r1 s1 where c: "crud_team_add_member s tid uid role = (r1, s1)"
    by (cases "crud_team_add_member s tid uid role")
  obtain m where r1: "r1 = Inr m"
    using ok tm priv tgt none c by (cases r1) (simp_all add: add_member_def)
  note k = crud_team_add_member_ok [OF c [unfolded r1]]
  obtain r2 s2 where n: "notify_team_invite L s1 uid tid (team_name team) (username u) = (r2, s2)"
    by (cases "notify_team_invite L s1 uid tid (team_name team) (username u)")
  have r2: "r2 = Inr ()"
    using ok tm priv tgt none c r1 n by (cases r2) (simp_all add: add_member_def)
  obtain r3 s3 where a: "activity_service_log s2 (user_id u) ''team_member_added'' ''team'' tid
      (Some (PDict [(''user_id'', PStr (str_uuid L uid)), (''role'', PStr role)])) = (r3, s3)"
    by (cases "activity_service_log s2 (user_id u) ''team_member_added'' ''team'' tid
      (Some (PDict [(''user_id'', PStr (str_uuid L uid)), (''role'', PStr role)]))")
  have fin: "member = m \<and> s' = s3"
    using ok tm priv tgt none c r1 n r2 a by (cases r3) (simp_all add: add_member_def)
  have "same_tables s1 (snd (notify_team_invite L s1 uid tid (team_name team) (username u)))"
    unfolding notify_team_invite_def by (rule notify_user_tables)
  then have t2: "same_tables s1 s2" by (simp only: n snd_conv)
  have "same_tables s2 (snd (activity_service_log s2 (user_id u) ''team_member_added'' ''team'' tid
      (Some (PDict [(''user_id'', PStr (str_uuid L uid)), (''role'', PStr role)]))))"
    by (rule activity_service_log_tables)
  then have t3: "same_tables s2 s3" by (simp only: a snd_conv)
  from k t2 t3 fin have "member = \<lparr>tm_team_id = tid, tm_user_id = uid, tm_role = role\<rparr> \<and>
           team_members s' = team_members s @ [member] \<and>
           teams s' = teams s \<and> users s' = users s"
    by (simp add: same_tables_def)
  with tm priv tgt none show ?thesis by blast
qed

lemma assert_manager_or_admin_extend:
  assumes "assert_manager_or_admin s team u = Inr ()"
    and "team_members s' = team_members s @ ms"
  shows "assert_manager_or_admin s' team u = Inr ()"
proof (cases "user_role u = ''admin'' \<or> team_owner_id team = user_id u")
  case True
  then show ?thesis by (auto simp: assert_manager_or_admin_def)
next
  case False
  with assms(1) obtain m where m: "get_member s (team_id team) (user_id u) = Some m"
      "tm_role m = ''manager''"
    by (cases "get_member s (team_id team) (user_id u)")
       (auto simp: assert_manager_or_admin_def split: if_splits)
  from m(1) assms(2) have "get_member s' (team_id team) (user_id u) = Some m"
    by (simp add: get_member_def find_append_left)
  with False m(2) show ?thesis by (auto simp: assert_manager_or_admin_def)
qed

text \<open>
  Claim C9.  A successful \<open>add_member\<close> appends exactly one membership row for the pair,
  which had none before, and a second call for the same pair by the same caller, on the
  state the first call left, raises \<open>Conflict\<close> and changes nothing.  Any call for a pair
  that already is a member fails and returns the state unchanged.  No call creates a
  duplicate row: a table without two rows for one (team, user) pair stays so.
\<close>

theorem add_member_idempotent_rejecting:
  "(add_member L s tid uid role u = (Inr member, s_after) \<longrightarrow>
      team_members s_after = team_members s @ [member] \<and>
      tm_team_id member = tid \<and> tm_user_id member = uid \<and>
      membership_rows s tid uid = [] \<and> membership_rows s_after tid uid = [member] \<and>
      add_member L s_after tid uid role_again u
        = (Inl (Conflict ''User is already a member of this team''), s_after)) \<and>
   (holds_membership s tid uid \<longrightarrow>
      snd (add_member L s tid uid role u) = s \<and> (\<exists>e. fst (add_member L s tid uid role u) = Inl e)) \<and>
   (distinct (member_keys s) \<longrightarrow> distinct (member_keys (snd (add_member L s tid uid role u))))"
proof -
  have first: "add_member L s tid uid role u = (Inr member, s_after) \<longrightarrow>
      team_members s_after = team_members s @ [member] \<and>
      tm_team_id member = tid \<and> tm_user_id member = uid \<and>
      membership_rows s tid uid = [] \<and> membership_rows s_after tid uid = [member] \<and>
      add_member L s_after tid uid role_again u
        = (Inl (Conflict ''User is already a member of this team''), s_after)"
  proof
    assume ok: "add_member L s tid uid role u = (Inr member, s_after)"
    from add_member_ok [OF ok] obtain team target where
      tm: "crud_team_get s tid = Some team" and
      priv: "assert_manager_or_admin s team u = Inr ()" and
      tgt: "crud_user_get s uid = Some target" and
      none: "get_member s tid uid = None" and
      mem: "member = \<lparr>tm_team_id = tid, tm_user_id = uid, tm_role = role\<rparr>" and
      tab: "team_members s_after = team_members s @ [member]" and
      tms: "teams s_after = teams s" and us: "users s_after = users s"
      by blast
    have rows0: "membership_rows s tid uid = []"
      using none by (simp add: get_member_None_rows)
    have rows1: "membership_rows s_after tid uid = [member]"
      using rows0 tab mem by (simp add: membership_rows_def)
    have tm1: "crud_team_get s_after tid = Some team" using tm tms by (simp add: crud_team_get_def)
    have tgt1: "crud_user_get s_after uid = Some target" using tgt us by (simp add: crud_user_get_def)
    have priv1: "assert_manager_or_admin s_after team u = Inr ()"
      using priv tab by (rule assert_manager_or_admin_extend)
    have ex1: "get_member s_after tid uid = Some member"
      using none tab mem by (simp add: get_member_def find_append_right)
    have "add_member L s_after tid uid role_again u
        = (Inl (Conflict ''User is already a member of this team''), s_after)"
      using tm1 tgt1 priv1 ex1 by (simp add: add_member_def)
    with tab mem rows0 rows1
    show "team_members s_after = team_members s @ [member] \<and>
      tm_team_id member = tid \<and> tm_user_id member = uid \<and>
      membership_rows s tid uid = [] \<and> membership_rows s_after tid uid = [member] \<and>
      add_member L s_after tid uid role_again u
        = (Inl (Conflict ''User is already a member of this team''), s_after)"
      by simp
  qed
  have again: "holds_membership s tid uid \<longrightarrow>
      snd (add_member L s tid uid role u) = s \<and> (\<exists>e. fst (add_member L s tid uid role u) = Inl e)"
  proof
    assume "holds_membership s tid uid"
    then obtain m where "get_member s tid uid = Some m"
      using get_member_holds_membership [of s tid uid] by auto
    then show "snd (add_member L s tid uid role u) = s \<and>
               (\<exists>e. fst (add_member L s tid uid role u) = Inl e)"
      by (auto simp: add_member_def split: option.splits sum.splits)
  qed
  have keys: "distinct (member_keys s) \<longrightarrow> distinct (member_keys (snd (add_member L s tid uid role u)))"
    using add_member_table [of L s tid uid role u]
    by (auto simp: member_keys_def get_member_None_keys)
  from first again keys show ?thesis by blast
qed


theorem add_member_idempotent_rejecting_witness:
  "fst (add_member example_lib example_sys 10 2 ''member'' alice)
     = Inr \<lparr>tm_team_id = 10, tm_user_id = 2, tm_role = ''member''\<rparr> \<and>
   team_members (snd (add_member example_lib example_sys 10 2 ''member'' alice))
     = [\<lparr>tm_team_id = 10, tm_user_id = 2, tm_role = ''member''\<rparr>] \<and>
   add_member example_lib (snd (add_member example_lib example_sys 10 2 ''member'' alice))
       10 2 ''manager'' alice
     = (Inl (Conflict ''User is already a member of this team''),
        snd (add_member example_lib example_sys 10 2 ''member'' alice)) \<and>
   snd (add_member example_lib (member_sys ''member'') 10 1 ''manager'' alice)
     = member_sys ''member'' \<and>
   distinct (member_keys (snd (add_member example_lib example_sys 10 2 ''member'' alice)))"
proof -
  have f: "fst (add_member example_lib example_sys 10 2 ''member'' alice)
     = Inr \<lparr>tm_team_id = 10, tm_user_id = 2, tm_role = ''member''\<rparr>"
    by (simp add: add_member_def crud_team_get_def assert_manager_or_admin_def crud_user_get_def
        get_member_def crud_team_add_member_def flush_def notify_team_invite_def notify_user_def
        create_notification_def is_connected_def activity_service_log_def example_sys_def
        empty_sys_def alice_def bob_def team10_def root_admin_def example_lib_def Let_def)
  have p: "add_member example_lib example_sys 10 2 ''member'' alice
     = (Inr \<lparr>tm_team_id = 10, tm_user_id = 2, tm_role = ''member''\<rparr>,
        snd (add_member example_lib example_sys 10 2 ''member'' alice))"
    using f by (simp add: prod_eq_iff)
  have h: "holds_membership (member_sys ''member'') 10 1"
    by (simp add: holds_membership_def member_sys_def example_sys_def empty_sys_def)
  have d: "distinct (member_keys example_sys)"
    by (simp add: member_keys_def example_sys_def empty_sys_def)
  have e: "team_members example_sys = []"
    by (simp add: example_sys_def empty_sys_def)
  note a = add_member_idempotent_rejecting
    [where L = example_lib and s = example_sys and tid = 10 and uid = 2 and role = "''member''"
       and u = alice and member = "\<lparr>tm_team_id = 10, tm_user_id = 2, tm_role = ''member''\<rparr>"
       and s_after = "snd (add_member example_lib example_sys 10 2 ''member'' alice)"
       and role_again = "''manager''"]
  note b = add_member_idempotent_rejecting
    [where L = example_lib and s = "member_sys ''member''" and tid = 10 and uid = 1
       and role = "''manager''" and u = alice]
  from a b p h d e f show ?thesis by simp
qed

section \<open>Notifications of a task update\<close>

lemma crud_task_update_ok:
  assumes "crud_task_update s t upd = (Inr updated, s1)"
  shows "updated = apply_update t upd \<and> notifications s1 = notifications s"
proof -
  obtain r s0 where f: "flush s = (r, s0)" by (cases "flush s")
  from flush_outcome [OF f] assms f show ?thesis
    by (auto simp: crud_task_update_def store_task_def Let_def split: sum.splits if_splits)
qed

lemma apply_update_keeps: "task_id (apply_update t upd) = task_id t" "owner_id (apply_update t upd) = owner_id t"
  by (simp_all add: apply_update_def)

lemma notify_task_assigned_ok:
  assumes "notify_task_assigned L s a tid ttl nm = (Inr x, s')"
  shows "map notice (notifications s') = map notice (notifications s) @ [(''task_assigned'', a, Some tid)]"
  using notify_user_ok [OF assms [unfolded notify_task_assigned_def]]
  by (simp add: notice_def)

lemma notify_task_updated_ok:
  assumes "notify_task_updated L s a tid ttl nm = (Inr x, s')"
  shows "map notice (notifications s') = map notice (notifications s) @ [(''task_updated'', a, Some tid)]"
  using notify_user_ok [OF assms [unfolded notify_task_updated_def]]
  by (simp add: notice_def)

lemma update_task_success_notifications:
  assumes g: "get_with_relations s tid = Some t"
    and ok: "update_task L s tid task_in u = (Inr updated, s')"
  shows "map notice (notifications s') = map notice (notifications s) @
      (case field_value (tu_assigned_to_id task_in) of
         None \<Rightarrow> []
       | Some a \<Rightarrow> if Some a \<noteq> assigned_to_id t \<and> a \<noteq> user_id u
                   then [(''task_assigned'', a, Some (task_id t))] else []) @
      (if owner_id t \<noteq> user_id u then [(''task_updated'', owner_id t, Some (task_id t))] else [])"
proof -
  have priv: "assert_can_modify s t u = Inr ()"
    using ok g by (cases "assert_can_modify s t u") (simp_all add: update_task_def)
  obtain r1 s1 where c: "crud_task_update s t task_in = (r1, s1)"
    by (cases "crud_task_update s t task_in")
  obtain upd where r1: "r1 = Inr upd"
    using ok g priv c by (cases r1) (simp_all add: update_task_def)
  note k = crud_task_update_ok [OF c [unfolded r1]]
  obtain r2 s2 where a: "activity_service_log s1 (user_id u) ''task_updated'' ''task''
             (task_id upd) (Some (PDict (model_dump task_in))) = (r2, s2)"
    by (cases "activity_service_log s1 (user_id u) ''task_updated'' ''task''
             (task_id upd) (Some (PDict (model_dump task_in)))")
  obtain entry where r2: "r2 = Inr entry"
    using ok g priv c r1 a by (cases r2) (simp_all add: update_task_def)
  note l = activity_service_log_ok [OF a [unfolded r2]]
  define first where "first =
     (case field_value (tu_assigned_to_id task_in) of
        None \<Rightarrow> (Inr (), s2)
      | Some a \<Rightarrow>
          (if field_value (tu_assigned_to_id task_in) \<noteq> assigned_to_id t \<and> a \<noteq> user_id u then
             notify_task_assigned L s2 a (task_id upd) (title upd) (username u)
           else (Inr (), s2)))"
  obtain r3 s3 where f: "first = (r3, s3)" by (cases first)
  have r3: "r3 = Inr ()"
    using ok g priv c r1 a r2 f by (cases r3) (simp_all add: update_task_def first_def Let_def)
  define second where "second =
     (if owner_id upd \<noteq> user_id u then
        notify_task_updated L s3 (owner_id upd) (task_id upd) (title upd) (username u)
      else (Inr (), s3))"
  obtain r4 s4 where h: "second = (r4, s4)" by (cases second)
  have fin: "r4 = Inr () \<and> s' = s4 \<and> updated = upd"
    using ok g priv c r1 a r2 f r3 h
    by (cases r4) (simp_all add: update_task_def first_def [symmetric] second_def [symmetric] Let_def)
  have n3: "map notice (notifications s3) = map notice (notifications s2) @
      (case field_value (tu_assigned_to_id task_in) of
         None \<Rightarrow> []
       | Some a \<Rightarrow> if Some a \<noteq> assigned_to_id t \<and> a \<noteq> user_id u
                   then [(''task_assigned'', a, Some (task_id t))] else [])"
  proof (cases "field_value (tu_assigned_to_id task_in)")
    case None
    with f show ?thesis by (simp add: first_def)
  next
    case (Some b)
    show ?thesis
    proof (cases "Some b \<noteq> assigned_to_id t \<and> b \<noteq> user_id u")
      case True
      with Some f r3 have "notify_task_assigned L s2 b (task_id upd) (title upd) (username u)
                             = (Inr (), s3)"
        by (simp add: first_def)
      from notify_task_assigned_ok [OF this] Some True k show ?thesis
        by (simp add: apply_update_keeps)
    next
      case False
      with Some f show ?thesis by (auto simp: first_def)
    qed
  qed
  have n4: "map notice (notifications s4) = map notice (notifications s3) @
      (if owner_id t \<noteq> user_id u then [(''task_updated'', owner_id t, Some (task_id t))] else [])"
  proof (cases "owner_id t \<noteq> user_id u")
    case True
    with h fin k have "notify_task_updated L s3 (owner_id upd) (task_id upd) (title upd) (username u)
                     = (Inr (), s4)"
      by (simp add: second_def apply_update_keeps)
    from notify_task_updated_ok [OF this] True k show ?thesis
      by (simp add: apply_update_keeps)
  next
    case False
    with h k show ?thesis by (simp add: second_def apply_update_keeps)
  qed
  from n3 n4 fin k l show ?thesis by simp
qed


lemma flush_no_fault: "flush_faults s = [] \<Longrightarrow> flush s = (Inr (), s)"
  by (simp add: flush_def)

lemma notify_user_no_fault:
  assumes "flush_faults s = []"
  shows "fst (notify_user L s uid message ntype ref) = Inr () \<and>
         flush_faults (snd (notify_user L s uid message ntype ref)) = []"
proof -
  define n where "n = \<lparr>n_id = next_uuid s, n_user_id = uid, n_message = message, n_type = ntype,
             n_reference_id = ref, n_is_read = False, n_created_at = now s\<rparr>"
  define s1 where "s1 = s\<lparr>notifications := notifications s @ [n], next_uuid := Suc (next_uuid s)\<rparr>"
  have c: "create_notification s uid message ntype ref = (Inr n, s1)"
    using assms by (simp add: create_notification_def flush_no_fault n_def s1_def Let_def)
  have f1: "flush_faults s1 = []" using assms by (simp add: s1_def)
  have sd: "same_db s1 (snd (send_personal_message L s1 (str_uuid L uid)
                               (push_payload L n message ntype ref)))"
    by (rule send_personal_message_same_db)
  have rs: "fst (send_personal_message L s1 (str_uuid L uid)
                   (push_payload L n message ntype ref)) = Inr ()"
    by (rule send_personal_message_result)
  show ?thesis
    using c f1 sd rs by (simp add: notify_user_def same_db_def)
qed

lemma activity_service_log_no_fault:
  assumes "flush_faults s = []"
  shows "\<exists>entry. fst (activity_service_log s uid action et eid meta) = Inr entry"
    and "flush_faults (snd (activity_service_log s uid action et eid meta)) = []"
  using assms by (simp_all add: activity_service_log_def flush_no_fault Let_def)

lemma crud_task_update_no_fault:
  assumes "flush_faults s = []" and "\<not> violates_not_null upd"
  shows "crud_task_update s t upd = (Inr (apply_update t upd), store_task s (apply_update t upd))"
  using assms by (simp add: crud_task_update_def flush_no_fault Let_def)

lemma update_task_no_fault:
  assumes g: "get_with_relations s tid = Some t"
    and priv: "assert_can_modify s t u = Inr ()"
    and nf: "flush_faults s = []"
    and nn: "\<not> violates_not_null task_in"
  shows "fst (update_task L s tid task_in u) = Inr (apply_update t task_in)"
proof -
  define upd where "upd = apply_update t task_in"
  define s1 where "s1 = store_task s upd"
  have c: "crud_task_update s t task_in = (Inr upd, s1)"
    using nf nn by (simp add: crud_task_update_no_fault upd_def s1_def)
  have f1: "flush_faults s1 = []" using nf by (simp add: s1_def store_task_def)
  obtain r2 s2 where a: "activity_service_log s1 (user_id u) ''task_updated'' ''task''
             (task_id upd) (Some (PDict (model_dump task_in))) = (r2, s2)"
    by (cases "activity_service_log s1 (user_id u) ''task_updated'' ''task''
             (task_id upd) (Some (PDict (model_dump task_in)))")
  from activity_service_log_no_fault [OF f1, of "user_id u" "''task_updated''" "''task''"
      "task_id upd" "Some (PDict (model_dump task_in))"] a
  obtain entry where r2: "r2 = Inr entry" and f2: "flush_faults s2 = []" by auto
  define first where "first =
     (case field_value (tu_assigned_to_id task_in) of
        None \<Rightarrow> (Inr (), s2)
      | Some a \<Rightarrow>
          (if field_value (tu_assigned_to_id task_in) \<noteq> assigned_to_id t \<and> a \<noteq> user_id u then
             notify_task_assigned L s2 a (task_id upd) (title upd) (username u)
           else (Inr (), s2)))"
  have f3: "fst first = Inr () \<and> flush_faults (snd first) = []"
    using f2 notify_user_no_fault [OF f2]
    by (simp add: first_def notify_task_assigned_def split: option.splits)
  obtain s3 where f: "first = (Inr (), s3)" and fs3: "flush_faults s3 = []"
    using f3 by (cases first) auto
  define second where "second =
     (if owner_id upd \<noteq> user_id u then
        notify_task_updated L s3 (owner_id upd) (task_id upd) (title upd) (username u)
      else (Inr (), s3))"
  have f4: "fst second = Inr ()"
    using notify_user_no_fault [OF fs3] by (simp add: second_def notify_task_updated_def)
  then obtain s4 where h: "second = (Inr (), s4)" by (cases second) auto
  have "fst (update_task L s tid task_in u) = Inr upd"
    using g priv c a r2 f h
    by (simp add: update_task_def first_def [symmetric] second_def [symmetric] Let_def)
  then show ?thesis by (simp add: upd_def)
qed

text \<open>
  Claim C10.  When \<open>update_task\<close> on an existing task returns normally, the notifications it
  added are, in this order: one \<open>task_assigned\<close> notification for the new assignee exactly
  when the update sets an assignee that is not \<open>None\<close>, differs from the previous assignee
  and differs from the acting user; and, independently, one \<open>task_updated\<close> notification
  for the task's owner exactly when the acting user is not the owner.  A permitted update
  whose storage writes do not raise does return normally.
\<close>

theorem update_task_notifications:
  "get_with_relations s tid = Some t \<Longrightarrow>
   (update_task L s tid task_in u = (Inr updated, s_after) \<longrightarrow>
      map notice (notifications s_after) = map notice (notifications s) @
        (case field_value (tu_assigned_to_id task_in) of
           None \<Rightarrow> []
         | Some a \<Rightarrow> if Some a \<noteq> assigned_to_id t \<and> a \<noteq> user_id u
                     then [(''task_assigned'', a, Some (task_id t))] else []) @
        (if owner_id t \<noteq> user_id u
         then [(''task_updated'', owner_id t, Some (task_id t))] else [])) \<and>
   (flush_faults s = [] \<and> assert_can_modify s t u = Inr () \<and> \<not> violates_not_null task_in \<longrightarrow>
      fst (update_task L s tid task_in u) = Inr (apply_update t task_in))"
  using update_task_success_notifications [of s tid t L task_in u updated s_after]
    update_task_no_fault [of s tid t u task_in L]
  by blast


theorem update_task_notifications_witness:
  "map notice (notifications (snd (update_task example_lib example_sys 20
       (no_update\<lparr>tu_assigned_to_id := Given (Some 1)\<rparr>) root_admin)))
     = [(''task_assigned'', 1, Some 20), (''task_updated'', 2, Some 20)] \<and>
   map notice (notifications (snd (update_task example_lib example_sys 20
       (no_update\<lparr>tu_assigned_to_id := Given (Some 3)\<rparr>) root_admin)))
     = [(''task_updated'', 2, Some 20)] \<and>
   map notice (notifications (snd (update_task example_lib example_sys 20
       (no_update\<lparr>tu_title := Given (Some ''Y'')\<rparr>) bob))) = []"
proof -
  have g: "get_with_relations example_sys 20 = Some task20"
    by (simp add: get_with_relations_def example_sys_def empty_sys_def task20_def)
  have nf: "flush_faults example_sys = []" "notifications example_sys = []"
    by (simp_all add: example_sys_def empty_sys_def)
  have pa: "assert_can_modify example_sys task20 root_admin = Inr ()"
    by (simp add: assert_can_modify_def root_admin_def)
  have pb: "assert_can_modify example_sys task20 bob = Inr ()"
    by (simp add: assert_can_modify_def bob_def task20_def)
  have nn: "\<not> violates_not_null (no_update\<lparr>tu_assigned_to_id := Given (Some 1)\<rparr>)"
    "\<not> violates_not_null (no_update\<lparr>tu_assigned_to_id := Given (Some 3)\<rparr>)"
    "\<not> violates_not_null (no_update\<lparr>tu_title := Given (Some ''Y'')\<rparr>)"
    by (simp_all add: violates_not_null_def no_update_def)
  have fv: "field_value (tu_assigned_to_id (no_update\<lparr>tu_assigned_to_id := Given (Some 1)\<rparr>)) = Some 1"
    "field_value (tu_assigned_to_id (no_update\<lparr>tu_assigned_to_id := Given (Some 3)\<rparr>)) = Some 3"
    "field_value (tu_assigned_to_id (no_update\<lparr>tu_title := Given (Some ''Y'')\<rparr>)) = None"
    by (simp_all add: field_value_def no_update_def)
  have ids: "task_id task20 = 20" "owner_id task20 = 2" "assigned_to_id task20 = None"
    "user_id root_admin = 3" "user_id bob = 2"
    by (simp_all add: task20_def root_admin_def bob_def)
  note a = update_task_notifications [OF g, where L = example_lib and u = root_admin
      and task_in = "no_update\<lparr>tu_assigned_to_id := Given (Some 1)\<rparr>"
      and updated = "apply_update task20 (no_update\<lparr>tu_assigned_to_id := Given (Some 1)\<rparr>)"
      and s_after = "snd (update_task example_lib example_sys 20
                            (no_update\<lparr>tu_assigned_to_id := Given (Some 1)\<rparr>) root_admin)"]
  note b = update_task_notifications [OF g, where L = example_lib and u = root_admin
      and task_in = "no_update\<lparr>tu_assigned_to_id := Given (Some 3)\<rparr>"
      and updated = "apply_update task20 (no_update\<lparr>tu_assigned_to_id := Given (Some 3)\<rparr>)"
      and s_after = "snd (update_task example_lib example_sys 20
                            (no_update\<lparr>tu_assigned_to_id := Given (Some 3)\<rparr>) root_admin)"]
  note c = update_task_notifications [OF g, where L = example_lib and u = bob
      and task_in = "no_update\<lparr>tu_title := Given (Some ''Y'')\<rparr>"
      and updated = "apply_update task20 (no_update\<lparr>tu_title := Given (Some ''Y'')\<rparr>)"
      and s_after = "snd (update_task example_lib example_sys 20
                            (no_update\<lparr>tu_title := Given (Some ''Y'')\<rparr>) bob)"]
  from a nf pa nn fv ids
  have ra: "map notice (notifications (snd (update_task example_lib example_sys 20
       (no_update\<lparr>tu_assigned_to_id := Given (Some 1)\<rparr>) root_admin)))
     = [(''task_assigned'', 1, Some 20), (''task_updated'', 2, Some 20)]"
    by (simp add: prod_eq_iff)
  from b nf pa nn fv ids
  have rb: "map notice (notifications (snd (update_task example_lib example_sys 20
       (no_update\<lparr>tu_assigned_to_id := Given (Some 3)\<rparr>) root_admin)))
     = [(''task_updated'', 2, Some 20)]"
    by (simp add: prod_eq_iff)
  from c nf pb nn fv ids
  have rc: "map notice (notifications (snd (update_task example_lib example_sys 20
       (no_update\<lparr>tu_title := Given (Some ''Y'')\<rparr>) bob))) = []"
    by (simp add: prod_eq_iff)
  from ra rb rc show ?thesis by simp
qed

section \<open>Listing tasks\<close>

lemma optional_clause_fst:
  "list_all (\<lambda>c. c t) (fst (optional_clause v cond qc))
     = (list_all (\<lambda>c. c t) (fst qc) \<and> (case v of None \<Rightarrow> True | Some x \<Rightarrow> cond x t))"
  by (simp add: optional_clause_def split: option.splits)

lemma optional_clause_snd:
  "list_all (\<lambda>c. c t) (snd (optional_clause v cond qc))
     = (list_all (\<lambda>c. c t) (snd qc) \<and> (case v of None \<Rightarrow> True | Some x \<Rightarrow> cond x t))"
  by (simp add: optional_clause_def split: option.splits)

lemma where_clauses_query:
  "list_all (\<lambda>c. c t) (fst (where_clauses L f owner team_ids))
     = ((case owner of None \<Rightarrow> True | Some oid \<Rightarrow> visibility_filter oid team_ids t) \<and>
        filter_criteria L f t)"
  by (auto simp: where_clauses_def Let_def optional_clause_fst filter_criteria_def
      split: option.splits)

lemma where_clauses_count:
  "list_all (\<lambda>c. c t) (snd (where_clauses L f owner team_ids))
     = ((case owner of None \<Rightarrow> True | Some oid \<Rightarrow> visibility_filter oid team_ids t) \<and>
        filter_criteria L f t)"
  by (auto simp: where_clauses_def Let_def optional_clause_snd filter_criteria_def
      split: option.splits)

lemma list_with_filters_eq:
  "list_with_filters L s f owner team_ids =
     (page_of f (filter (\<lambda>t. (case owner of None \<Rightarrow> True
                               | Some oid \<Rightarrow> visibility_filter oid team_ids t) \<and>
                              filter_criteria L f t) (tasks s)),
      length (filter (\<lambda>t. (case owner of None \<Rightarrow> True
                            | Some oid \<Rightarrow> visibility_filter oid team_ids t) \<and>
                           filter_criteria L f t) (tasks s)))"
  by (simp add: list_with_filters_def Let_def case_prod_unfold where_clauses_query
      where_clauses_count page_of_def)

lemma set_get_user_team_ids:
  "set (get_user_team_ids s uid)
     = {team_id tm | tm. tm \<in> set (teams s) \<and>
          (team_owner_id tm = uid \<or> holds_membership s (team_id tm) uid)}"
  by (auto simp: get_user_team_ids_def holds_membership_def)

lemma visibility_filter_scope:
  "visibility_filter uid (Some (get_user_team_ids s uid)) t = owner_or_member_scope s uid t"
proof (cases "task_team_id t")
  case None
  then show ?thesis
    by (auto simp: visibility_filter_def owner_or_member_scope_def Let_def)
next
  case (Some x)
  have "(x \<in> set (get_user_team_ids s uid))
          = list_ex (\<lambda>tm. team_id tm = x \<and> (team_owner_id tm = uid \<or> holds_membership s x uid))
              (teams s)"
    by (auto simp: set_get_user_team_ids list_ex_iff)
  moreover have "x \<in> set (get_user_team_ids s uid) \<Longrightarrow> get_user_team_ids s uid \<noteq> []"
    by auto
  ultimately show ?thesis
    using Some by (auto simp: visibility_filter_def owner_or_member_scope_def Let_def)
qed


lemma list_tasks_user:
  "user_role u \<noteq> ''admin'' \<Longrightarrow>
   list_tasks L s f u =
     (page_of f (filter (\<lambda>t. owner_or_member_scope s (user_id u) t \<and> filter_criteria L f t) (tasks s)),
      length (filter (\<lambda>t. owner_or_member_scope s (user_id u) t \<and> filter_criteria L f t) (tasks s)))"
  by (simp add: list_tasks_def list_with_filters_eq visibility_filter_scope Let_def)

lemma list_tasks_admin:
  "user_role u = ''admin'' \<Longrightarrow>
   list_tasks L s f u =
     (page_of f (filter (filter_criteria L f) (tasks s)),
      length (filter (filter_criteria L f) (tasks s)))"
  by (simp add: list_tasks_def list_with_filters_eq)

lemma set_page_of: "set (page_of f rows) \<subseteq> set rows"
proof -
  have "set (page_of f rows) \<subseteq> set (sort_key (\<lambda>t. - created_at t) rows)"
    unfolding page_of_def
    by (meson set_take_subset set_drop_subset subset_trans)
  then show ?thesis by simp
qed

lemma scopes_agree:
  assumes own: "\<forall>tm \<in> set (teams s). holds_membership s (team_id tm) (team_owner_id tm)"
    and fk: "\<forall>m \<in> set (team_members s). \<exists>tm \<in> set (teams s). team_id tm = tm_team_id m"
  shows "owner_or_member_scope s uid t = membership_scope s uid t"
proof (cases "task_team_id t")
  case None
  then show ?thesis by (simp add: owner_or_member_scope_def membership_scope_def)
next
  case (Some x)
  have "list_ex (\<lambda>tm. team_id tm = x \<and> (team_owner_id tm = uid \<or> holds_membership s x uid)) (teams s)
          = holds_membership s x uid"
  proof
    assume "list_ex (\<lambda>tm. team_id tm = x \<and> (team_owner_id tm = uid \<or> holds_membership s x uid)) (teams s)"
    then obtain tm where tm: "tm \<in> set (teams s)" "team_id tm = x"
        "team_owner_id tm = uid \<or> holds_membership s x uid"
      by (auto simp: list_ex_iff)
    from own tm(1) have "holds_membership s (team_id tm) (team_owner_id tm)" by blast
    with tm(2,3) show "holds_membership s x uid" by auto
  next
    assume h: "holds_membership s x uid"
    then obtain m where "m \<in> set (team_members s)" "tm_team_id m = x"
      by (auto simp: holds_membership_def list_ex_iff)
    with fk obtain tm where "tm \<in> set (teams s)" "team_id tm = x" by force
    with h show "list_ex (\<lambda>tm. team_id tm = x \<and> (team_owner_id tm = uid \<or> holds_membership s x uid)) (teams s)"
      by (auto simp: list_ex_iff)
  qed
  with Some show ?thesis by (simp add: owner_or_member_scope_def membership_scope_def)
qed

text \<open>
  Claim C8, as amended.  For a non-admin actor \<open>list_tasks\<close> returns the requested page
  (newest first) of exactly the tasks that match the filter criteria and are owned by the
  actor, assigned to the actor, or belong to an existing team that the actor owns or holds
  a membership row in; the total is the number of tasks of this same scoped set, so the
  scope is part of both queries.  For an admin actor the set is the tasks that match the
  filter criteria, unscoped.  When every team's owner holds a membership row in the team
  (and every membership row refers to an existing team), the scope is the one the
  specification words: owned, assigned, or in a team the actor holds membership in.
\<close>

theorem list_tasks_scope:
  "(user_role u \<noteq> ''admin'' \<longrightarrow>
      list_tasks L s f u =
        (page_of f (filter (\<lambda>t. owner_or_member_scope s (user_id u) t \<and> filter_criteria L f t)
                      (tasks s)),
         length (filter (\<lambda>t. owner_or_member_scope s (user_id u) t \<and> filter_criteria L f t)
                   (tasks s))) \<and>
      (\<forall>t \<in> set (fst (list_tasks L s f u)).
         t \<in> set (tasks s) \<and> owner_or_member_scope s (user_id u) t \<and> filter_criteria L f t)) \<and>
   (user_role u = ''admin'' \<longrightarrow>
      list_tasks L s f u =
        (page_of f (filter (filter_criteria L f) (tasks s)),
         length (filter (filter_criteria L f) (tasks s)))) \<and>
   ((\<forall>tm \<in> set (teams s). holds_membership s (team_id tm) (team_owner_id tm)) \<and>
    (\<forall>m \<in> set (team_members s). \<exists>tm \<in> set (teams s). team_id tm = tm_team_id m) \<longrightarrow>
      owner_or_member_scope s uid t = membership_scope s uid t)"
proof -
  have a: "user_role u \<noteq> ''admin'' \<longrightarrow>
      list_tasks L s f u =
        (page_of f (filter (\<lambda>t. owner_or_member_scope s (user_id u) t \<and> filter_criteria L f t)
                      (tasks s)),
         length (filter (\<lambda>t. owner_or_member_scope s (user_id u) t \<and> filter_criteria L f t)
                   (tasks s))) \<and>
      (\<forall>t \<in> set (fst (list_tasks L s f u)).
         t \<in> set (tasks s) \<and> owner_or_member_scope s (user_id u) t \<and> filter_criteria L f t)"
  proof
    assume na: "user_role u \<noteq> ''admin''"
    note eq = list_tasks_user [OF na, of L s f]
    have "set (fst (list_tasks L s f u))
            \<subseteq> set (filter (\<lambda>t. owner_or_member_scope s (user_id u) t \<and> filter_criteria L f t)
                       (tasks s))"
      unfolding eq fst_conv by (rule set_page_of)
    then have "\<forall>t \<in> set (fst (list_tasks L s f u)).
         t \<in> set (tasks s) \<and> owner_or_member_scope s (user_id u) t \<and> filter_criteria L f t"
      by auto
    with eq show "list_tasks L s f u =
        (page_of f (filter (\<lambda>t. owner_or_member_scope s (user_id u) t \<and> filter_criteria L f t)
                      (tasks s)),
         length (filter (\<lambda>t. owner_or_member_scope s (user_id u) t \<and> filter_criteria L f t)
                   (tasks s))) \<and>
      (\<forall>t \<in> set (fst (list_tasks L s f u)).
         t \<in> set (tasks s) \<and> owner_or_member_scope s (user_id u) t \<and> filter_criteria L f t)"
      by blast
  qed
  have b: "user_role u = ''admin'' \<longrightarrow>
      list_tasks L s f u =
        (page_of f (filter (filter_criteria L f) (tasks s)),
         length (filter (filter_criteria L f) (tasks s)))"
    using list_tasks_admin by blast
  have c: "(\<forall>tm \<in> set (teams s). holds_membership s (team_id tm) (team_owner_id tm)) \<and>
    (\<forall>m \<in> set (team_members s). \<exists>tm \<in> set (teams s). team_id tm = tm_team_id m) \<longrightarrow>
      owner_or_member_scope s uid t = membership_scope s uid t"
    using scopes_agree by blast
  from a b c show ?thesis by blast
qed

text \<open>
  The scope is not the membership scope in general: alice owns team 10 without a membership
  row, and the listing for her contains bob's task of that team.
\<close>

theorem owner_without_membership_listed:
  "user_role alice \<noteq> ''admin'' \<and>
   list_tasks example_lib example_sys no_filter alice = ([task20], 1) \<and>
   \<not> membership_scope example_sys (user_id alice) task20"
proof -
  have na: "user_role alice \<noteq> ''admin''" by (simp add: alice_def)
  have fc: "filter_criteria example_lib no_filter task20"
    by (simp add: filter_criteria_def no_filter_def task20_def)
  have sc: "owner_or_member_scope example_sys (user_id alice) task20"
    by (simp add: owner_or_member_scope_def example_sys_def empty_sys_def task20_def team10_def
        alice_def)
  have ts: "tasks example_sys = [task20]" by (simp add: example_sys_def empty_sys_def)
  have pg: "page_of no_filter [task20] = [task20]"
    by (simp add: page_of_def no_filter_def)
  have "list_tasks example_lib example_sys no_filter alice = ([task20], 1)"
    using list_tasks_user [OF na, of example_lib example_sys no_filter] fc sc ts pg by simp
  moreover have "\<not> membership_scope example_sys (user_id alice) task20"
    by (simp add: membership_scope_def holds_membership_def example_sys_def empty_sys_def
        task20_def alice_def)
  ultimately show ?thesis using na by simp
qed


theorem list_tasks_scope_witness:
  "list_tasks example_lib (member_sys ''member'') no_filter alice = ([task20], 1) \<and>
   list_tasks example_lib example_sys no_filter
     \<lparr>user_id = 4, username = ''carol'', user_role = ''user''\<rparr> = ([], 0) \<and>
   list_tasks example_lib example_sys no_filter root_admin = ([task20], 1) \<and>
   membership_scope (member_sys ''member'') 1 task20"
proof -
  have fc: "filter_criteria example_lib no_filter task20"
    by (simp add: filter_criteria_def no_filter_def task20_def)
  have ts: "tasks example_sys = [task20]" "tasks (member_sys ''member'') = [task20]"
    by (simp_all add: member_sys_def example_sys_def empty_sys_def)
  have pg: "page_of no_filter [task20] = [task20]" "page_of no_filter [] = []"
    by (simp_all add: page_of_def no_filter_def)
  have s1: "owner_or_member_scope (member_sys ''member'') 1 task20"
    by (simp add: owner_or_member_scope_def member_sys_def example_sys_def empty_sys_def
        task20_def team10_def)
  have s4: "\<not> owner_or_member_scope example_sys 4 task20"
    by (simp add: owner_or_member_scope_def holds_membership_def example_sys_def empty_sys_def
        task20_def team10_def)
  have own: "\<forall>tm \<in> set (teams (member_sys ''member'')).
               holds_membership (member_sys ''member'') (team_id tm) (team_owner_id tm)"
    by (simp add: holds_membership_def member_sys_def example_sys_def empty_sys_def team10_def)
  have fk: "\<forall>m \<in> set (team_members (member_sys ''member'')).
              \<exists>tm \<in> set (teams (member_sys ''member'')). team_id tm = tm_team_id m"
    by (simp add: member_sys_def example_sys_def empty_sys_def team10_def)
  have roles: "user_role alice \<noteq> ''admin''" "user_role root_admin = ''admin''" "user_id alice = 1"
    by (simp_all add: alice_def root_admin_def)
  note a = list_tasks_scope [where u = alice and L = example_lib and s = "member_sys ''member''"
      and f = no_filter and uid = 1 and t = task20]
  note b = list_tasks_scope [where u = "\<lparr>user_id = 4, username = ''carol'', user_role = ''user''\<rparr>"
      and L = example_lib and s = example_sys and f = no_filter]
  note c = list_tasks_scope [where u = root_admin and L = example_lib and s = example_sys
      and f = no_filter]
  note a1 = a [THEN conjunct1, THEN mp, OF roles(1), THEN conjunct1]
  note a3 = a [THEN conjunct2, THEN conjunct2, THEN mp, OF conjI [OF own fk]]
  have ra: "list_tasks example_lib (member_sys ''member'') no_filter alice = ([task20], 1) \<and>
            membership_scope (member_sys ''member'') 1 task20"
    using a1 a3 s1 by (simp add: ts roles(3) fc pg)
  have nb: "user_role \<lparr>user_id = 4, username = ''carol'', user_role = ''user''\<rparr> \<noteq> ''admin''"
    by simp
  note b1 = b [THEN conjunct1, THEN mp, OF nb, THEN conjunct1]
  have rb: "list_tasks example_lib example_sys no_filter
              \<lparr>user_id = 4, username = ''carol'', user_role = ''user''\<rparr> = ([], 0)"
    using b1 s4 by (simp add: ts pg)
  note c1 = c [THEN conjunct2, THEN conjunct1, THEN mp, OF roles(2)]
  have rc: "list_tasks example_lib example_sys no_filter root_admin = ([task20], 1)"
    using c1 by (simp add: ts fc pg)
  from ra rb rc show ?thesis by simp
qed

end
